theory Spec2Isabelle
  imports Main "HOL-Library.AList" "HOL-Library.Sublist" "HOL-Library.Char_ord"
begin

section \<open>The name resolver of \<^verbatim>\<open>internal/services/name_service.go\<close>\<close>

text \<open>
  The development embeds the caching version of the resolver (the second package text of
  \<^verbatim>\<open>name_service.go\<close>, with \<^verbatim>\<open>cacheEntry\<close>, the two TTLs and the miss logger).

  Go strings are byte sequences, and so is \<^typ>\<open>string\<close>. A point in time is an integer
  number of nanoseconds, a \<^verbatim>\<open>time.Duration\<close> is an integer number of nanoseconds that
  \<^verbatim>\<open>Time.Sub\<close> saturates to the 64-bit range. Every operation reads the clock once: the
  instant \<open>now\<close> is a parameter. The lock \<^verbatim>\<open>cacheMutex\<close> is not modelled: every
  operation is one atomic step on the resolver.
\<close>

subsection \<open>Data\<close>

record NameInfo =
  Type :: string
  ID :: string
  Name :: string
  TenantID :: string
  TenantName :: string

type_synonym time = int
type_synonym Duration = int

record ClusterInfo =
  ClusterID :: string
  ClusterName :: string
  TenantID :: string
  TenantName :: string
  DeployType :: string
  Version :: string
  ClusterLifecycle :: string
  CreationDuration :: string
  TenantPlan :: string
  Provider :: string
  Region :: string
  ProjectID :: string
  OrgID :: string
  ClusterType :: string
  CreatedAt :: time
  UpdatedAt :: time

record TenantInfo =
  TenantID :: string
  TenantName :: string
  Kind :: string
  CreatedAt :: time
  UpdatedAt :: time

record cacheEntry =
  info :: NameInfo
  notFound :: bool
  timestamp :: time

text \<open>
  The cache \<^verbatim>\<open>map[string]cacheEntry\<close> is an association list; a Go map has one entry
  for a key, which is \<open>distinct (map fst c)\<close>. The logger is \<open>None\<close> when the pointer
  is nil and otherwise holds the messages printed so far (without the timestamp prefix the
  logger adds), oldest first.
\<close>

record NameResolver =
  cache :: "(string \<times> cacheEntry) list"
  missLogger :: "string list option"
  cacheTTL :: Duration
  notFoundTTL :: Duration

definition Hour :: Duration where
  "Hour = 3600 * 1000000000"

definition GetNameResolver :: NameResolver where
  "GetNameResolver =
     \<lparr>cache = [], missLogger = Some [], cacheTTL = 24 * Hour, notFoundTTL = 1 * Hour\<rparr>"

definition logMiss :: "string \<Rightarrow> string \<Rightarrow> NameResolver \<Rightarrow> NameResolver" where
  "logMiss ident reason nr =
     (case missLogger nr of
        None \<Rightarrow> nr
      | Some ls \<Rightarrow> nr\<lparr>missLogger := Some (ls @ [''ID='' @ ident @ '' reason='' @ reason])\<rparr>)"

text \<open>
  \<^verbatim>\<open>range s\<close> yields runes; a byte below \<^verbatim>\<open>0x80\<close> is its own rune and every other
  rune (the replacement rune of an invalid byte too) is above \<^verbatim>\<open>'9'\<close>, so the test on
  runes is the test on bytes.
\<close>

definition isNumeric :: "string \<Rightarrow> bool" where
  "isNumeric s = ((\<forall>c \<in> set s. \<not> (c < CHR ''0'' \<or> c > CHR ''9'')) \<and> length s > 0)"

definition Since :: "time \<Rightarrow> time \<Rightarrow> Duration" where
  "Since now t =
     (let d = now - t
      in if d < - (2 ^ 63) then - (2 ^ 63) else if d > 2 ^ 63 - 1 then 2 ^ 63 - 1 else d)"

definition isEntryValid :: "NameResolver \<Rightarrow> time \<Rightarrow> cacheEntry \<Rightarrow> bool" where
  "isEntryValid nr now entry =
     (let ttl = (if notFound entry then notFoundTTL nr else cacheTTL nr)
      in Since now (timestamp entry) < ttl)"

subsection \<open>The library functions \<^verbatim>\<open>strings.TrimSpace\<close> and \<^verbatim>\<open>strings.Join\<close>\<close>

text \<open>
  \<^verbatim>\<open>strings.TrimSpace\<close> removes the leading and then the trailing runes that
  \<^verbatim>\<open>unicode.IsSpace\<close> accepts: tab, line feed, vertical tab, form feed, carriage return,
  space, U+0085, U+00A0, U+1680, U+2000 to U+200A, U+2028, U+2029, U+202F, U+205F and U+3000.
  On bytes these are the UTF-8 encodings below; an encoding is recognised at the start of a
  string as a prefix and at its end as a suffix.
\<close>

definition spaceRunes :: "string list" where
  "spaceRunes =
     [[CHR 0x09], [CHR 0x0A], [CHR 0x0B], [CHR 0x0C], [CHR 0x0D], [CHR 0x20],
      [CHR 0xC2, CHR 0x85], [CHR 0xC2, CHR 0xA0],
      [CHR 0xE1, CHR 0x9A, CHR 0x80],
      [CHR 0xE2, CHR 0x80, CHR 0x80], [CHR 0xE2, CHR 0x80, CHR 0x81],
      [CHR 0xE2, CHR 0x80, CHR 0x82], [CHR 0xE2, CHR 0x80, CHR 0x83],
      [CHR 0xE2, CHR 0x80, CHR 0x84], [CHR 0xE2, CHR 0x80, CHR 0x85],
      [CHR 0xE2, CHR 0x80, CHR 0x86], [CHR 0xE2, CHR 0x80, CHR 0x87],
      [CHR 0xE2, CHR 0x80, CHR 0x88], [CHR 0xE2, CHR 0x80, CHR 0x89],
      [CHR 0xE2, CHR 0x80, CHR 0x8A],
      [CHR 0xE2, CHR 0x80, CHR 0xA8], [CHR 0xE2, CHR 0x80, CHR 0xA9],
      [CHR 0xE2, CHR 0x80, CHR 0xAF], [CHR 0xE2, CHR 0x81, CHR 0x9F],
      [CHR 0xE3, CHR 0x80, CHR 0x80]]"

definition leadingRune :: "string list \<Rightarrow> string \<Rightarrow> nat" where
  "leadingRune rs s =
     (case find (\<lambda>r. r \<noteq> [] \<and> prefix r s) rs of None \<Rightarrow> 0 | Some r \<Rightarrow> length r)"

function TrimLeftRunes :: "string list \<Rightarrow> string \<Rightarrow> string" where
  "TrimLeftRunes rs s =
     (if leadingRune rs s = 0 then s else TrimLeftRunes rs (drop (leadingRune rs s) s))"
  by pat_completeness auto

lemma leadingRune_drop:
  assumes "leadingRune rs s \<noteq> 0"
  shows "length (drop (leadingRune rs s) s) < length s"
proof -
  from assms obtain r where r: "find (\<lambda>r. r \<noteq> [] \<and> prefix r s) rs = Some r"
    by (auto simp: leadingRune_def split: option.splits)
  then have "r \<noteq> []" and "prefix r s"
    by (auto simp: find_Some_iff)
  then obtain c cs d ds where "r = c # cs" and "s = d # ds" and "length cs \<le> length ds"
    by (cases r; cases s) (auto simp: prefix_length_le)
  with r show ?thesis
    by (simp add: leadingRune_def)
qed

termination TrimLeftRunes
  by (relation "measure (\<lambda>(rs, s). length s)") (use leadingRune_drop in auto)

declare TrimLeftRunes.simps [simp del]

definition TrimSpace :: "string \<Rightarrow> string" where
  "TrimSpace s = rev (TrimLeftRunes (map rev spaceRunes) (rev (TrimLeftRunes spaceRunes s)))"

fun Join :: "string list \<Rightarrow> string \<Rightarrow> string" where
  "Join [] sep = []"
| "Join [x] sep = x"
| "Join (x # y # ys) sep = x @ sep @ Join (y # ys) sep"

subsection \<open>The database \<^verbatim>\<open>db.TiDB\<close>\<close>

text \<open>
  The resolver reads the database through five statements. What \<^verbatim>\<open>QueryRow(...).Scan\<close>
  gives for a statement and an id is \<open>ErrNoRows\<close>, another error, or the scanned row; what
  \<^verbatim>\<open>Query\<close> gives is an error or the rows, each of which scans or fails to. The variable
  \<^verbatim>\<open>db.TiDB\<close> belongs to the package \<^verbatim>\<open>internal/db\<close> and to the database server
  behind it, so the answers are a parameter of \<^verbatim>\<open>Resolve\<close>: a value of the record
  below for each call, and \<open>None\<close> when \<^verbatim>\<open>db.TiDB == nil\<close>. The texts of the SQL
  statements (their joins, their \<^verbatim>\<open>ORDER BY created DESC\<close>) are not modelled.
\<close>

datatype 'a scan = ErrNoRows | ScanError string | Scanned 'a

datatype 'a rows = QueryError string | Rows "(string + 'a) list"

record TiDB =
  clusters_by_id :: "string \<Rightarrow> ClusterInfo scan"
  tenants_by_id :: "string \<Rightarrow> TenantInfo scan"
  cluster_name_by_id :: "string \<Rightarrow> string scan"
  tenant_name_by_id :: "string \<Rightarrow> string scan"
  premium_names_by_parent_id :: "string \<Rightarrow> string rows"

definition getCluster :: "TiDB \<Rightarrow> string \<Rightarrow> ClusterInfo option \<times> string option" where
  "getCluster tidb clusterID =
     (case clusters_by_id tidb clusterID of
        ErrNoRows \<Rightarrow> (None, None)
      | ScanError e \<Rightarrow> (None, Some e)
      | Scanned i \<Rightarrow> (Some i, None))"

definition getTenant :: "TiDB \<Rightarrow> string \<Rightarrow> TenantInfo option \<times> string option" where
  "getTenant tidb tenantID =
     (case tenants_by_id tidb tenantID of
        ErrNoRows \<Rightarrow> (None, None)
      | ScanError e \<Rightarrow> (None, Some e)
      | Scanned i \<Rightarrow> (Some i, None))"

definition getClusterName :: "TiDB \<Rightarrow> string \<Rightarrow> string \<times> string option" where
  "getClusterName tidb clusterID =
     (case cluster_name_by_id tidb clusterID of
        ErrNoRows \<Rightarrow> ([], None)
      | ScanError e \<Rightarrow> ([], Some e)
      | Scanned name \<Rightarrow> (name, None))"

definition getTenantName :: "TiDB \<Rightarrow> string \<Rightarrow> string \<times> string option" where
  "getTenantName tidb tenantID =
     (case tenant_name_by_id tidb tenantID of
        ErrNoRows \<Rightarrow> ([], None)
      | ScanError e \<Rightarrow> ([], Some e)
      | Scanned name \<Rightarrow> (name, None))"

text \<open>
  The loop over \<^verbatim>\<open>rows.Next()\<close>: a row that fails to scan (\<open>Inl\<close>) ends the function with
  the error and the nil slice.
\<close>

fun scanNames :: "(string + string) list \<Rightarrow> string list \<Rightarrow> string list \<times> string option" where
  "scanNames [] names = (names, None)"
| "scanNames (Inr name # rs) names = scanNames rs (names @ [name])"
| "scanNames (Inl e # rs) names = ([], Some e)"

definition getPremiumClusterNamesByParentID ::
    "TiDB \<Rightarrow> string \<Rightarrow> string list \<times> string option" where
  "getPremiumClusterNamesByParentID tidb parentID =
     (case premium_names_by_parent_id tidb parentID of
        QueryError e \<Rightarrow> ([], Some e)
      | Rows rs \<Rightarrow> scanNames rs [])"

subsection \<open>\<^verbatim>\<open>Resolve\<close>\<close>

text \<open>
  The four errors \<^verbatim>\<open>Resolve\<close> makes with \<^verbatim>\<open>fmt.Errorf\<close>, and their messages.
\<close>

datatype error = InvalidInput | NotFoundCached string | BackendUnavailable | NotFound string

fun Error :: "error \<Rightarrow> string" where
  "Error InvalidInput = ''empty id''"
| "Error (NotFoundCached ident) = ''ID not found (cached): '' @ ident"
| "Error BackendUnavailable = ''TiDB not connected''"
| "Error (NotFound ident) = ''ID not found: '' @ ident"

text \<open>The statements \<^verbatim>\<open>Resolve\<close> sends to the database, in the order it sends them.\<close>

datatype query =
  ClusterById string
  | PremiumNamesByParentId string
  | TenantById string
  | TenantNameById string
  | ClusterNameById string

text \<open>
  What a call leaves behind: the two values it returns, the resolver after it and the
  statements it has sent.
\<close>

record outcome =
  result :: NameInfo
  err :: "error option"
  resolver :: NameResolver
  queries :: "query list"

definition emptyNameInfo :: NameInfo where
  "emptyNameInfo = \<lparr>Type = [], ID = [], Name = [], TenantID = [], TenantName = []\<rparr>"

definition idNameInfo :: "string \<Rightarrow> NameInfo" where
  "idNameInfo ident = \<lparr>Type = [], ID = ident, Name = ident, TenantID = [], TenantName = []\<rparr>"

definition store :: "string \<Rightarrow> cacheEntry \<Rightarrow> NameResolver \<Rightarrow> NameResolver" where
  "store ident entry nr = nr\<lparr>cache := AList.update ident entry (cache nr)\<rparr>"

text \<open>The loop that keeps the trimmed premium names that are neither empty nor the id.\<close>

fun meaningful :: "string \<Rightarrow> string list \<Rightarrow> string list \<Rightarrow> string list" where
  "meaningful ident [] meaningfulNames = meaningfulNames"
| "meaningful ident (name # premiumNames) meaningfulNames =
     (let name = TrimSpace name
      in if name \<noteq> [] \<and> name \<noteq> ident
         then meaningful ident premiumNames (meaningfulNames @ [name])
         else meaningful ident premiumNames meaningfulNames)"

definition premiumName :: "TiDB \<Rightarrow> string \<Rightarrow> string \<Rightarrow> string" where
  "premiumName tidb ident clusterName =
     (case getPremiumClusterNamesByParentID tidb ident of
        (premiumNames, None) \<Rightarrow>
          if length premiumNames > 0
          then (let meaningfulNames = meaningful ident premiumNames []
                in if length meaningfulNames > 0 then Join meaningfulNames '', ''
                   else clusterName)
          else clusterName
      | (premiumNames, Some e) \<Rightarrow> clusterName)"

text \<open>
  The four steps of the chain in \<^verbatim>\<open>Resolve\<close>, each an \<^verbatim>\<open>if\<close> with a query in its
  head and a \<^verbatim>\<open>return\<close> in its body: the outcome of \<^verbatim>\<open>Resolve\<close> when the body runs,
  \<open>None\<close> when it does not. The \<open>queries\<close> of an outcome are all the statements sent
  by then, those of the steps before included.
\<close>

definition tryCluster :: "TiDB \<Rightarrow> time \<Rightarrow> NameResolver \<Rightarrow> string \<Rightarrow> outcome option" where
  "tryCluster tidb now nr ident =
     (case getCluster tidb ident of
        (Some clusterInfo, None) \<Rightarrow>
          (let special = (DeployType clusterInfo = ''nextgen-host'' \<and>
                 (ClusterName clusterInfo = [] \<or> ClusterName clusterInfo = ident));
               clusterName = (if special then premiumName tidb ident (ClusterName clusterInfo)
                              else ClusterName clusterInfo);
               res = \<lparr>Type = ''cluster'', ID = ident, Name = clusterName,
                      TenantID = ClusterInfo.TenantID clusterInfo,
                      TenantName = ClusterInfo.TenantName clusterInfo\<rparr>
           in Some \<lparr>result = res, err = None,
                 resolver = store ident \<lparr>info = res, notFound = False, timestamp = now\<rparr> nr,
                 queries = ClusterById ident # (if special then [PremiumNamesByParentId ident] else [])\<rparr>)
      | _ \<Rightarrow> None)"

definition tryTenant :: "TiDB \<Rightarrow> time \<Rightarrow> NameResolver \<Rightarrow> string \<Rightarrow> outcome option" where
  "tryTenant tidb now nr ident =
     (case getTenant tidb ident of
        (Some tenantInfo, None) \<Rightarrow>
          (let res = \<lparr>Type = ''tenant'', ID = ident, Name = TenantInfo.TenantName tenantInfo,
                      TenantID = [], TenantName = []\<rparr>
           in Some \<lparr>result = res, err = None,
                 resolver = store ident \<lparr>info = res, notFound = False, timestamp = now\<rparr> nr,
                 queries = [ClusterById ident, TenantById ident]\<rparr>)
      | _ \<Rightarrow> None)"

definition tryTenantName :: "TiDB \<Rightarrow> time \<Rightarrow> NameResolver \<Rightarrow> string \<Rightarrow> outcome option" where
  "tryTenantName tidb now nr ident =
     (case getTenantName tidb ident of
        (tenantName, None) \<Rightarrow>
          if tenantName \<noteq> [] then
            (let res = \<lparr>Type = ''tenant'', ID = ident, Name = tenantName,
                        TenantID = [], TenantName = []\<rparr>
             in Some \<lparr>result = res, err = None,
                   resolver = store ident \<lparr>info = res, notFound = False, timestamp = now\<rparr> nr,
                   queries = [ClusterById ident, TenantById ident, TenantNameById ident]\<rparr>)
          else None
      | _ \<Rightarrow> None)"

definition tryClusterName :: "TiDB \<Rightarrow> time \<Rightarrow> NameResolver \<Rightarrow> string \<Rightarrow> outcome option" where
  "tryClusterName tidb now nr ident =
     (case getClusterName tidb ident of
        (clusterName, None) \<Rightarrow>
          if clusterName \<noteq> [] then
            (let res = \<lparr>Type = ''cluster'', ID = ident, Name = clusterName,
                        TenantID = [], TenantName = []\<rparr>
             in Some \<lparr>result = res, err = None,
                   resolver = store ident \<lparr>info = res, notFound = False, timestamp = now\<rparr> nr,
                   queries = [ClusterById ident, TenantById ident, TenantNameById ident,
                              ClusterNameById ident]\<rparr>)
          else None
      | _ \<Rightarrow> None)"

text \<open>
  The read of the cache, \<^verbatim>\<open>entry, ok := nr.cache[id]; ok && nr.isEntryValid(entry)\<close>:
  the entry when there is one and it is valid.
\<close>

definition lookupValid :: "NameResolver \<Rightarrow> time \<Rightarrow> string \<Rightarrow> cacheEntry option" where
  "lookupValid nr now ident =
     (case map_of (cache nr) ident of
        None \<Rightarrow> None
      | Some entry \<Rightarrow> if isEntryValid nr now entry then Some entry else None)"

definition Resolve :: "TiDB option \<Rightarrow> time \<Rightarrow> NameResolver \<Rightarrow> string \<Rightarrow> outcome" where
  "Resolve db now nr ident =
     (if ident = [] then
        \<lparr>result = emptyNameInfo, err = Some InvalidInput, resolver = nr, queries = []\<rparr>
      else if \<not> isNumeric ident then
        \<lparr>result = idNameInfo ident, err = None, resolver = nr, queries = []\<rparr>
      else case lookupValid nr now ident of
        Some entry \<Rightarrow>
          if notFound entry then
            \<lparr>result = idNameInfo ident, err = Some (NotFoundCached ident), resolver = nr,
             queries = []\<rparr>
          else \<lparr>result = info entry, err = None, resolver = nr, queries = []\<rparr>
      | None \<Rightarrow>
         (case db of
            None \<Rightarrow>
              \<lparr>result = idNameInfo ident, err = Some BackendUnavailable,
               resolver = logMiss ident ''TiDB_not_connected'' nr, queries = []\<rparr>
          | Some tidb \<Rightarrow>
             (case tryCluster tidb now nr ident of
                Some out \<Rightarrow> out
              | None \<Rightarrow>
             (case tryTenant tidb now nr ident of
                Some out \<Rightarrow> out
              | None \<Rightarrow>
             (case tryTenantName tidb now nr ident of
                Some out \<Rightarrow> out
              | None \<Rightarrow>
             (case tryClusterName tidb now nr ident of
                Some out \<Rightarrow> out
              | None \<Rightarrow>
                \<lparr>result = idNameInfo ident, err = Some (NotFound ident),
                 resolver =
                   logMiss ident ''not_found_in_database''
                     (store ident
                        \<lparr>info = idNameInfo ident, notFound = True, timestamp = now\<rparr> nr),
                 queries = [ClusterById ident, TenantById ident, TenantNameById ident,
                            ClusterNameById ident]\<rparr>))))))"

subsection \<open>Housekeeping\<close>

text \<open>
  The map that \<^verbatim>\<open>GetCacheStats\<close> returns, with the two TTLs as durations (the code
  renders them with \<^verbatim>\<open>Duration.String\<close>). The lines that \<^verbatim>\<open>ClearCache\<close> and
  \<^verbatim>\<open>CleanExpiredCache\<close> write to the standard logger are not modelled.
\<close>

record stats =
  total :: nat
  found :: nat
  not_found :: nat
  expired :: nat
  cache_ttl :: Duration
  not_found_ttl :: Duration

fun countEntries ::
    "NameResolver \<Rightarrow> time \<Rightarrow> (string \<times> cacheEntry) list \<Rightarrow> nat \<times> nat \<times> nat \<Rightarrow> nat \<times> nat \<times> nat" where
  "countEntries nr now [] (f, n, e) = (f, n, e)"
| "countEntries nr now ((ident, entry) # rest) (f, n, e) =
     (if \<not> isEntryValid nr now entry then countEntries nr now rest (f, n, e + 1)
      else if notFound entry then countEntries nr now rest (f, n + 1, e)
      else countEntries nr now rest (f + 1, n, e))"

definition GetCacheStats :: "NameResolver \<Rightarrow> time \<Rightarrow> stats" where
  "GetCacheStats nr now =
     (case countEntries nr now (cache nr) (0, 0, 0) of
        (f, n, e) \<Rightarrow>
          \<lparr>total = length (cache nr), found = f, not_found = n, expired = e,
           cache_ttl = cacheTTL nr, not_found_ttl = notFoundTTL nr\<rparr>)"

definition ClearCache :: "NameResolver \<Rightarrow> NameResolver" where
  "ClearCache nr = nr\<lparr>cache := []\<rparr>"

text \<open>
  The loop of \<^verbatim>\<open>CleanExpiredCache\<close> ranges over the entries the map had when it began
  (it deletes none but the one it is at) and deletes by key from the map.
\<close>

fun cleanLoop ::
    "NameResolver \<Rightarrow> time \<Rightarrow> (string \<times> cacheEntry) list \<Rightarrow> (string \<times> cacheEntry) list \<Rightarrow> nat
       \<Rightarrow> (string \<times> cacheEntry) list \<times> nat" where
  "cleanLoop nr now [] c cleaned = (c, cleaned)"
| "cleanLoop nr now ((ident, entry) # rest) c cleaned =
     (if \<not> isEntryValid nr now entry
      then cleanLoop nr now rest (AList.delete ident c) (cleaned + 1)
      else cleanLoop nr now rest c cleaned)"

definition CleanExpiredCache :: "NameResolver \<Rightarrow> time \<Rightarrow> nat \<times> NameResolver" where
  "CleanExpiredCache nr now =
     (case cleanLoop nr now (cache nr) (cache nr) 0 of
        (c, cleaned) \<Rightarrow> (cleaned, nr\<lparr>cache := c\<rparr>))"

text \<open>What a caller sees of a call: the two values returned and the statements sent.\<close>

definition observed :: "outcome \<Rightarrow> NameInfo \<times> error option \<times> query list" where
  "observed out = (result out, err out, queries out)"

subsection \<open>Reachable resolvers\<close>

text \<open>
  The resolvers a program can have: the one \<^verbatim>\<open>GetNameResolver\<close> makes, and what
  \<^verbatim>\<open>Resolve\<close> (with any database, at any time, for any identifier),
  \<^verbatim>\<open>ClearCache\<close> and \<^verbatim>\<open>CleanExpiredCache\<close> make of a reachable one.
\<close>

inductive reachable :: "NameResolver \<Rightarrow> bool" where
  initial: "reachable GetNameResolver"
| resolve: "reachable nr \<Longrightarrow> reachable (resolver (Resolve db now nr ident))"
| clear: "reachable nr \<Longrightarrow> reachable (ClearCache nr)"
| cleanExpired: "reachable nr \<Longrightarrow> reachable (snd (CleanExpiredCache nr now))"

text \<open>The property of one stored entry that the reachable caches keep.\<close>

definition entryOK :: "string \<times> cacheEntry \<Rightarrow> bool" where
  "entryOK p = (ID (info (snd p)) = fst p \<and> (notFound (snd p) \<longrightarrow> info (snd p) = idNameInfo (fst p)))"

subsection \<open>Sample values for the worked instances\<close>

definition noCluster :: ClusterInfo where
  "noCluster =
     \<lparr>ClusterID = [], ClusterName = [], TenantID = [], TenantName = [], DeployType = [],
      Version = [], ClusterLifecycle = [], CreationDuration = [], TenantPlan = [],
      Provider = [], Region = [], ProjectID = [], OrgID = [], ClusterType = [],
      CreatedAt = 0, UpdatedAt = 0\<rparr>"

definition emptyDB :: TiDB where
  "emptyDB =
     \<lparr>clusters_by_id = (\<lambda>i. ErrNoRows), tenants_by_id = (\<lambda>i. ErrNoRows),
      cluster_name_by_id = (\<lambda>i. ErrNoRows), tenant_name_by_id = (\<lambda>i. ErrNoRows),
      premium_names_by_parent_id = (\<lambda>i. Rows [])\<rparr>"

definition positiveEntry :: "string \<Rightarrow> string \<Rightarrow> time \<Rightarrow> cacheEntry" where
  "positiveEntry ident name t =
     \<lparr>info = \<lparr>Type = ''tenant'', ID = ident, Name = name, TenantID = [], TenantName = []\<rparr>,
      notFound = False, timestamp = t\<rparr>"

definition negativeEntry :: "string \<Rightarrow> time \<Rightarrow> cacheEntry" where
  "negativeEntry ident t = \<lparr>info = idNameInfo ident, notFound = True, timestamp = t\<rparr>"

definition premiumDB :: "string list \<Rightarrow> TiDB" where
  "premiumDB names = emptyDB
     \<lparr>clusters_by_id := (\<lambda>i. Scanned (noCluster\<lparr>ClusterID := i, DeployType := ''nextgen-host''\<rparr>)),
      premium_names_by_parent_id := (\<lambda>i. Rows (map Inr names))\<rparr>"

definition tenantOnlyDB :: TiDB where
  "tenantOnlyDB = emptyDB
     \<lparr>clusters_by_id := (\<lambda>i. ScanError ''connection reset''),
      tenants_by_id := (\<lambda>i. Scanned \<lparr>TenantID = i, TenantName = ''acme'', Kind = [],
                                     CreatedAt = 0, UpdatedAt = 0\<rparr>)\<rparr>"

definition unnamedClusterDB :: TiDB where
  "unnamedClusterDB = emptyDB
     \<lparr>clusters_by_id := (\<lambda>i. Scanned (noCluster\<lparr>ClusterID := i, DeployType := ''dedicated''\<rparr>))\<rparr>"

section \<open>Properties\<close>

subsection \<open>Identifiers that are not looked up\<close>

lemma isNumeric_Nil: "\<not> isNumeric []"
  by (simp add: isNumeric_def)

lemma not_isNumeric_iff:
  "\<not> isNumeric s \<longleftrightarrow> s = [] \<or> (\<exists>c \<in> set s. c < CHR ''0'' \<or> CHR ''9'' < c)"
  by (auto simp: isNumeric_def)




subsection \<open>Cache hits\<close>

text \<open>
  Claim C2. When the cache holds a valid entry for a numeric identifier, \<^verbatim>\<open>Resolve\<close>
  sends no statement to the database and leaves the resolver, its cache included, as it
  was; a negative entry gives the error \<open>NotFoundCached\<close> with \<open>{id, name: id}\<close>, a
  positive entry gives the stored record with no error.
\<close>

theorem Resolve_cache_hit:
  assumes "isNumeric ident"
    and "map_of (cache nr) ident = Some entry"
    and "isEntryValid nr now entry"
  shows "queries (Resolve db now nr ident) = [] \<and>
         resolver (Resolve db now nr ident) = nr \<and>
         (notFound entry \<longrightarrow>
            err (Resolve db now nr ident) = Some (NotFoundCached ident) \<and>
            result (Resolve db now nr ident) =
              \<lparr>Type = [], ID = ident, Name = ident, TenantID = [], TenantName = []\<rparr>) \<and>
         (\<not> notFound entry \<longrightarrow>
            err (Resolve db now nr ident) = None \<and>
            result (Resolve db now nr ident) = info entry)"
  using assms by (auto simp: Resolve_def lookupValid_def isNumeric_def idNameInfo_def)

theorem Resolve_cache_hit_witness:
  "isNumeric ''42'' \<and>
   map_of [(''42'', positiveEntry ''42'' ''acme'' 10), (''43'', negativeEntry ''43'' 10)] ''43''
     = Some (negativeEntry ''43'' 10) \<and>
   isEntryValid (GetNameResolver\<lparr>cache :=
       [(''42'', positiveEntry ''42'' ''acme'' 10), (''43'', negativeEntry ''43'' 10)]\<rparr>)
     20 (negativeEntry ''43'' 10) \<and>
   err (Resolve (Some emptyDB) 20 (GetNameResolver\<lparr>cache :=
       [(''42'', positiveEntry ''42'' ''acme'' 10), (''43'', negativeEntry ''43'' 10)]\<rparr>) ''43'')
     = Some (NotFoundCached ''43'') \<and>
   result (Resolve (Some emptyDB) 20 (GetNameResolver\<lparr>cache :=
       [(''42'', positiveEntry ''42'' ''acme'' 10), (''43'', negativeEntry ''43'' 10)]\<rparr>) ''43'')
     = \<lparr>Type = [], ID = ''43'', Name = ''43'', TenantID = [], TenantName = []\<rparr> \<and>
   queries (Resolve (Some emptyDB) 20 (GetNameResolver\<lparr>cache :=
       [(''42'', positiveEntry ''42'' ''acme'' 10), (''43'', negativeEntry ''43'' 10)]\<rparr>) ''43'')
     = [] \<and>
   resolver (Resolve (Some emptyDB) 20 (GetNameResolver\<lparr>cache :=
       [(''42'', positiveEntry ''42'' ''acme'' 10), (''43'', negativeEntry ''43'' 10)]\<rparr>) ''43'')
     = GetNameResolver\<lparr>cache :=
       [(''42'', positiveEntry ''42'' ''acme'' 10), (''43'', negativeEntry ''43'' 10)]\<rparr> \<and>
   err (Resolve (Some emptyDB) 20 (GetNameResolver\<lparr>cache :=
       [(''42'', positiveEntry ''42'' ''acme'' 10), (''43'', negativeEntry ''43'' 10)]\<rparr>) ''42'')
     = None \<and>
   result (Resolve (Some emptyDB) 20 (GetNameResolver\<lparr>cache :=
       [(''42'', positiveEntry ''42'' ''acme'' 10), (''43'', negativeEntry ''43'' 10)]\<rparr>) ''42'')
     = \<lparr>Type = ''tenant'', ID = ''42'', Name = ''acme'', TenantID = [], TenantName = []\<rparr> \<and>
   queries (Resolve (Some emptyDB) 20 (GetNameResolver\<lparr>cache :=
       [(''42'', positiveEntry ''42'' ''acme'' 10), (''43'', negativeEntry ''43'' 10)]\<rparr>) ''42'')
     = []"
proof -
  let ?nr = "GetNameResolver\<lparr>cache :=
       [(''42'', positiveEntry ''42'' ''acme'' 10), (''43'', negativeEntry ''43'' 10)]\<rparr>"
  have n42: "isNumeric ''42''" and n43: "isNumeric ''43''"
    by (simp_all add: isNumeric_def less_char_def)
  have m42: "map_of (cache ?nr) ''42'' = Some (positiveEntry ''42'' ''acme'' 10)"
    and m43: "map_of (cache ?nr) ''43'' = Some (negativeEntry ''43'' 10)"
    by simp_all
  have v42: "isEntryValid ?nr 20 (positiveEntry ''42'' ''acme'' 10)"
    and v43: "isEntryValid ?nr 20 (negativeEntry ''43'' 10)"
    by (simp_all add: isEntryValid_def Since_def positiveEntry_def negativeEntry_def
        GetNameResolver_def Hour_def)
  have f: "\<not> notFound (positiveEntry ''42'' ''acme'' 10)" "notFound (negativeEntry ''43'' 10)"
    "info (positiveEntry ''42'' ''acme'' 10) =
       \<lparr>Type = ''tenant'', ID = ''42'', Name = ''acme'', TenantID = [], TenantName = []\<rparr>"
    by (simp_all add: positiveEntry_def negativeEntry_def)
  from Resolve_cache_hit [OF n42 m42 v42, of "Some emptyDB"]
    Resolve_cache_hit [OF n43 m43 v43, of "Some emptyDB"] n42 m43 v43 f
  show ?thesis
    by simp
qed

subsection \<open>Validity of an entry\<close>

lemma Since_less_iff:
  assumes "- (2 ^ 63) < ttl" and "ttl < 2 ^ 63"
  shows "Since now t < ttl \<longleftrightarrow> now - t < ttl"
  using assms by (auto simp: Since_def Let_def)

lemma Since_mono: "now \<le> now' \<Longrightarrow> Since now t \<le> Since now' t"
  by (auto simp: Since_def Let_def)

lemma tryCluster_observed:
  "map_option observed (tryCluster tidb now nr ident) = map_option observed (tryCluster tidb now nr' ident)"
  by (simp add: tryCluster_def observed_def Let_def split: prod.splits option.splits)

lemma tryTenant_observed:
  "map_option observed (tryTenant tidb now nr ident) = map_option observed (tryTenant tidb now nr' ident)"
  by (simp add: tryTenant_def observed_def Let_def split: prod.splits option.splits)

lemma tryTenantName_observed:
  "map_option observed (tryTenantName tidb now nr ident) = map_option observed (tryTenantName tidb now nr' ident)"
  by (simp add: tryTenantName_def observed_def Let_def split: prod.splits option.splits)

lemma tryClusterName_observed:
  "map_option observed (tryClusterName tidb now nr ident) = map_option observed (tryClusterName tidb now nr' ident)"
  by (simp add: tryClusterName_def observed_def Let_def split: prod.splits option.splits)

lemma Resolve_chain:
  assumes "isNumeric ident" and "lookupValid nr now ident = None"
  shows "Resolve (Some tidb) now nr ident =
    (case tryCluster tidb now nr ident of Some out \<Rightarrow> out | None \<Rightarrow>
     case tryTenant tidb now nr ident of Some out \<Rightarrow> out | None \<Rightarrow>
     case tryTenantName tidb now nr ident of Some out \<Rightarrow> out | None \<Rightarrow>
     case tryClusterName tidb now nr ident of Some out \<Rightarrow> out | None \<Rightarrow>
       \<lparr>result = idNameInfo ident, err = Some (NotFound ident),
        resolver = logMiss ident ''not_found_in_database''
          (store ident \<lparr>info = idNameInfo ident, notFound = True, timestamp = now\<rparr> nr),
        queries = [ClusterById ident, TenantById ident, TenantNameById ident,
                   ClusterNameById ident]\<rparr>)"
proof -
  from assms(1) have "ident \<noteq> []"
    by (auto simp: isNumeric_def)
  with assms show ?thesis
    by (simp add: Resolve_def)
qed

lemma case_option_observed:
  "map_option observed x = map_option observed y \<Longrightarrow> observed d = observed d' \<Longrightarrow>
   observed (case x of Some out \<Rightarrow> out | None \<Rightarrow> d) = observed (case y of Some out \<Rightarrow> out | None \<Rightarrow> d')"
  by (cases x; cases y) simp_all

lemma Resolve_miss_observed:
  assumes "lookupValid nr now ident = None" and "lookupValid nr' now ident = None"
  shows "observed (Resolve db now nr ident) = observed (Resolve db now nr' ident)"
proof (cases "isNumeric ident")
  case False
  then show ?thesis by (simp add: Resolve_def observed_def)
next
  case num: True
  show ?thesis
  proof (cases db)
    case None
    with assms show ?thesis by (simp add: Resolve_def observed_def)
  next
    case (Some tidb)
    show ?thesis
      unfolding Some Resolve_chain [OF num assms(1)] Resolve_chain [OF num assms(2)]
      by (intro case_option_observed tryCluster_observed tryTenant_observed
          tryTenantName_observed tryClusterName_observed) (simp add: observed_def)
  qed
qed

lemma store_keys: "fst ` set (cache (store ident e nr)) = insert ident (fst ` set (cache nr))"
  by (simp add: store_def dom_update)

lemma logMiss_cache: "cache (logMiss ident r nr) = cache nr"
  by (simp add: logMiss_def split: option.splits)

lemma tryCluster_Some:
  "tryCluster tidb now nr ident = Some out \<Longrightarrow>
     resolver out = store ident \<lparr>info = result out, notFound = False, timestamp = now\<rparr> nr \<and>
     err out = None \<and> ID (result out) = ident"
  by (auto simp: tryCluster_def Let_def split: prod.splits option.splits)

lemma tryTenant_Some:
  "tryTenant tidb now nr ident = Some out \<Longrightarrow>
     resolver out = store ident \<lparr>info = result out, notFound = False, timestamp = now\<rparr> nr \<and>
     err out = None \<and> ID (result out) = ident"
  by (auto simp: tryTenant_def Let_def split: prod.splits option.splits)

lemma tryTenantName_Some:
  "tryTenantName tidb now nr ident = Some out \<Longrightarrow>
     resolver out = store ident \<lparr>info = result out, notFound = False, timestamp = now\<rparr> nr \<and>
     err out = None \<and> ID (result out) = ident"
  by (auto simp: tryTenantName_def Let_def split: prod.splits option.splits if_splits)

lemma tryClusterName_Some:
  "tryClusterName tidb now nr ident = Some out \<Longrightarrow>
     resolver out = store ident \<lparr>info = result out, notFound = False, timestamp = now\<rparr> nr \<and>
     err out = None \<and> ID (result out) = ident"
  by (auto simp: tryClusterName_def Let_def split: prod.splits option.splits if_splits)

lemmas try_Some = tryCluster_Some tryTenant_Some tryTenantName_Some tryClusterName_Some

text \<open>What Resolve does to the resolver: nothing, a line in the miss log, or one stored entry
  for the identifier (and a line in the miss log when the entry is negative).\<close>

lemma Resolve_resolver_cases:
  "resolver (Resolve db now nr ident) = nr \<or>
   resolver (Resolve db now nr ident) = logMiss ident ''TiDB_not_connected'' nr \<or>
   (\<exists>i. ID i = ident \<and> resolver (Resolve db now nr ident) =
      store ident \<lparr>info = i, notFound = False, timestamp = now\<rparr> nr) \<or>
   resolver (Resolve db now nr ident) =
      logMiss ident ''not_found_in_database''
        (store ident \<lparr>info = idNameInfo ident, notFound = True, timestamp = now\<rparr> nr)"
  by (auto simp: Resolve_def split: option.splits dest!: try_Some)

lemma Resolve_keys: "fst ` set (cache nr) \<subseteq> fst ` set (cache (resolver (Resolve db now nr ident)))"
  using Resolve_resolver_cases [of db now nr ident]
  by (elim disjE exE conjE) (simp_all add: logMiss_cache store_keys subset_insertI)


lemma isEntryValid_iff:
  assumes "- (2 ^ 63) < cacheTTL nr" and "cacheTTL nr < 2 ^ 63"
    and "- (2 ^ 63) < notFoundTTL nr" and "notFoundTTL nr < 2 ^ 63"
  shows "isEntryValid nr now entry \<longleftrightarrow>
     now - timestamp entry < (if notFound entry then notFoundTTL nr else cacheTTL nr)"
  using assms by (simp add: isEntryValid_def Since_less_iff)

lemma lookupValid_delete: "lookupValid (nr\<lparr>cache := AList.delete ident (cache nr)\<rparr>) now ident = None"
  by (simp add: lookupValid_def delete_conv')

lemma isEntryValid_cache_upd [simp]: "isEntryValid (nr\<lparr>cache := c\<rparr>) now e = isEntryValid nr now e"
  by (simp add: isEntryValid_def)

text \<open>
  Claim C4. The TTL of an entry is chosen by its \<open>notFound\<close> flag alone:
  \<open>notFoundTTL\<close> for a negative entry, \<open>cacheTTL\<close> for a positive one; the resolver
  that \<^verbatim>\<open>GetNameResolver\<close> makes has 24 hours and 1 hour. With TTLs that are 64-bit
  durations other than the least one (nothing in the code changes the two defaults), an
  entry is valid exactly when \<open>now - timestamp < ttl\<close>. An entry that is not valid is
  read as if it were absent: \<^verbatim>\<open>Resolve\<close> returns the same values and sends the same
  statements as with the entry deleted. The read does not remove it: no key of the cache is
  missing after \<^verbatim>\<open>Resolve\<close>.
\<close>

theorem entry_validity:
  assumes "- (2 ^ 63) < cacheTTL nr" and "cacheTTL nr < 2 ^ 63"
    and "- (2 ^ 63) < notFoundTTL nr" and "notFoundTTL nr < 2 ^ 63"
  shows "(isEntryValid nr now entry \<longleftrightarrow>
            now - timestamp entry < (if notFound entry then notFoundTTL nr else cacheTTL nr)) \<and>
         cacheTTL GetNameResolver = 24 * 3600 * 1000000000 \<and>
         notFoundTTL GetNameResolver = 3600 * 1000000000 \<and>
         (map_of (cache nr) ident = Some entry \<and> \<not> isEntryValid nr now entry \<longrightarrow>
            result (Resolve db now nr ident) =
              result (Resolve db now (nr\<lparr>cache := AList.delete ident (cache nr)\<rparr>) ident) \<and>
            err (Resolve db now nr ident) =
              err (Resolve db now (nr\<lparr>cache := AList.delete ident (cache nr)\<rparr>) ident) \<and>
            queries (Resolve db now nr ident) =
              queries (Resolve db now (nr\<lparr>cache := AList.delete ident (cache nr)\<rparr>) ident) \<and>
            ident \<in> fst ` set (cache (resolver (Resolve db now nr ident)))) \<and>
         fst ` set (cache nr) \<subseteq> fst ` set (cache (resolver (Resolve db now nr ident)))"
proof -
  have ttl: "isEntryValid nr now entry \<longleftrightarrow>
      now - timestamp entry < (if notFound entry then notFoundTTL nr else cacheTTL nr)"
    using assms by (rule isEntryValid_iff)
  have dflt: "cacheTTL GetNameResolver = 24 * 3600 * 1000000000"
    "notFoundTTL GetNameResolver = 3600 * 1000000000"
    by (simp_all add: GetNameResolver_def Hour_def)
  have keys: "fst ` set (cache nr) \<subseteq> fst ` set (cache (resolver (Resolve db now nr ident)))"
    by (rule Resolve_keys)
  have absent: "observed (Resolve db now nr ident) =
      observed (Resolve db now (nr\<lparr>cache := AList.delete ident (cache nr)\<rparr>) ident) \<and>
      ident \<in> fst ` set (cache (resolver (Resolve db now nr ident)))"
    if m: "map_of (cache nr) ident = Some entry" and inv: "\<not> isEntryValid nr now entry"
  proof -
    from m inv have "lookupValid nr now ident = None"
      by (simp add: lookupValid_def)
    then have "observed (Resolve db now nr ident) =
      observed (Resolve db now (nr\<lparr>cache := AList.delete ident (cache nr)\<rparr>) ident)"
      using lookupValid_delete by (rule Resolve_miss_observed)
    moreover from m have "ident \<in> fst ` set (cache nr)"
      by (metis domI dom_map_of_conv_image_fst)
    ultimately show ?thesis using keys by blast
  qed
  show ?thesis
    using ttl dflt keys absent by (simp add: observed_def)
qed

theorem entry_validity_witness:
  "- (2 ^ 63) < cacheTTL GetNameResolver \<and> cacheTTL GetNameResolver < 2 ^ 63 \<and>
   - (2 ^ 63) < notFoundTTL GetNameResolver \<and> notFoundTTL GetNameResolver < 2 ^ 63 \<and>
   isEntryValid GetNameResolver (10 + 3600 * 1000000000 - 1) (negativeEntry ''43'' 10) \<and>
   \<not> isEntryValid GetNameResolver (10 + 3600 * 1000000000) (negativeEntry ''43'' 10) \<and>
   isEntryValid GetNameResolver (10 + 3600 * 1000000000) (positiveEntry ''42'' ''acme'' 10) \<and>
   \<not> isEntryValid GetNameResolver (10 + 24 * 3600 * 1000000000) (positiveEntry ''42'' ''acme'' 10) \<and>
   err (Resolve None (10 + 3600 * 1000000000)
          (GetNameResolver\<lparr>cache := [(''43'', negativeEntry ''43'' 10)]\<rparr>) ''43'')
     = Some BackendUnavailable \<and>
   ''43'' \<in> fst ` set (cache (resolver (Resolve None (10 + 3600 * 1000000000)
          (GetNameResolver\<lparr>cache := [(''43'', negativeEntry ''43'' 10)]\<rparr>) ''43'')))"
proof -
  have b: "- (2 ^ 63) < cacheTTL GetNameResolver" "cacheTTL GetNameResolver < 2 ^ 63"
    "- (2 ^ 63) < notFoundTTL GetNameResolver" "notFoundTTL GetNameResolver < 2 ^ 63"
    by (simp_all add: GetNameResolver_def Hour_def)
  let ?nr = "GetNameResolver\<lparr>cache := [(''43'', negativeEntry ''43'' 10)]\<rparr>"
  have b': "- (2 ^ 63) < cacheTTL ?nr" "cacheTTL ?nr < 2 ^ 63"
    "- (2 ^ 63) < notFoundTTL ?nr" "notFoundTTL ?nr < 2 ^ 63"
    using b by simp_all
  have e: "err (Resolve None (10 + 3600 * 1000000000)
      (?nr\<lparr>cache := AList.delete ''43'' (cache ?nr)\<rparr>) ''43'') = Some BackendUnavailable"
    by (simp add: Resolve_def isNumeric_def less_char_def lookupValid_def)
  have ttls: "notFoundTTL GetNameResolver = 3600 * 1000000000"
    "cacheTTL GetNameResolver = 24 * 3600 * 1000000000"
    by (simp_all add: GetNameResolver_def Hour_def)
  from entry_validity [OF b, of "10 + 3600 * 1000000000 - 1" "negativeEntry ''43'' 10"]
    entry_validity [OF b, of "10 + 3600 * 1000000000" "negativeEntry ''43'' 10"]
    entry_validity [OF b, of "10 + 3600 * 1000000000" "positiveEntry ''42'' ''acme'' 10"]
    entry_validity [OF b, of "10 + 24 * 3600 * 1000000000" "positiveEntry ''42'' ''acme'' 10"]
  have v: "isEntryValid GetNameResolver (10 + 3600 * 1000000000 - 1) (negativeEntry ''43'' 10)"
    "\<not> isEntryValid GetNameResolver (10 + 3600 * 1000000000) (negativeEntry ''43'' 10)"
    "isEntryValid GetNameResolver (10 + 3600 * 1000000000) (positiveEntry ''42'' ''acme'' 10)"
    "\<not> isEntryValid GetNameResolver (10 + 24 * 3600 * 1000000000) (positiveEntry ''42'' ''acme'' 10)"
    by (simp_all add: ttls negativeEntry_def positiveEntry_def)
  from v(2) have inv: "\<not> isEntryValid ?nr (10 + 3600 * 1000000000) (negativeEntry ''43'' 10)"
    by simp
  from entry_validity [OF b', of "10 + 3600 * 1000000000" "negativeEntry ''43'' 10" "''43''" None]
    inv e
  have r: "err (Resolve None (10 + 3600 * 1000000000) ?nr ''43'') = Some BackendUnavailable"
    "''43'' \<in> fst ` set (cache (resolver (Resolve None (10 + 3600 * 1000000000) ?nr ''43'')))"
    by simp_all
  from b v r show ?thesis
    by simp
qed

subsection \<open>The cleanup sweep\<close>

lemma cleanLoop_eq:
  "cleanLoop nr now es c n =
     (filter (\<lambda>p. fst p \<notin> set (map fst (filter (\<lambda>q. \<not> isEntryValid nr now (snd q)) es))) c,
      n + length (filter (\<lambda>q. \<not> isEntryValid nr now (snd q)) es))"
proof (induction es arbitrary: c n)
  case Nil
  then show ?case by simp
next
  case (Cons p es)
  obtain k e where p: "p = (k, e)" by (cases p)
  show ?case
  proof (cases "isEntryValid nr now e")
    case True
    with p Cons.IH [of c n] show ?thesis by simp
  next
    case False
    have "AList.delete k c = filter (\<lambda>q. fst q \<noteq> k) c"
      by (induction c) auto
    moreover have "filter (\<lambda>x. fst x \<noteq> k \<and> Q x) c = filter (\<lambda>x. Q x \<and> fst x \<noteq> k) c" for Q
      by (rule filter_cong) auto
    ultimately show ?thesis
      using False p Cons.IH [of "AList.delete k c" "n + 1"] by simp
  qed
qed

lemma distinct_keys_same:
  "distinct (map fst c) \<Longrightarrow> (k, e) \<in> set c \<Longrightarrow> (k, e') \<in> set c \<Longrightarrow> e = e'"
  by (metis map_of_is_SomeI option.inject)

lemma cleanLoop_distinct:
  assumes "distinct (map fst c)"
  shows "cleanLoop nr now c c 0 =
     (filter (\<lambda>(k, e). isEntryValid nr now e) c,
      length (filter (\<lambda>(k, e). \<not> isEntryValid nr now e) c))"
proof -
  let ?K = "set (map fst (filter (\<lambda>q. \<not> isEntryValid nr now (snd q)) c))"
  have "filter (\<lambda>p. fst p \<notin> ?K) c = filter (\<lambda>(k, e). isEntryValid nr now e) c"
  proof (rule filter_cong [OF refl])
    fix p assume pin: "p \<in> set c"
    obtain k e where p: "p = (k, e)" by (cases p)
    have "k \<in> ?K \<longleftrightarrow> \<not> isEntryValid nr now e"
    proof
      assume "k \<in> ?K"
      then obtain e' where "(k, e') \<in> set c" and "\<not> isEntryValid nr now e'"
        by auto
      moreover from this pin p have "e' = e"
        using distinct_keys_same [OF assms] by blast
      ultimately show "\<not> isEntryValid nr now e" by simp
    next
      assume "\<not> isEntryValid nr now e"
      with pin p have "(k, e) \<in> set (filter (\<lambda>q. \<not> isEntryValid nr now (snd q)) c)"
        by simp
      then have "fst (k, e) \<in> fst ` set (filter (\<lambda>q. \<not> isEntryValid nr now (snd q)) c)"
        by (rule imageI)
      then show "k \<in> ?K"
        by simp
    qed
    with p show "(fst p \<notin> ?K) = (case p of (k, e) \<Rightarrow> isEntryValid nr now e)"
      by simp
  qed
  moreover have "filter (\<lambda>q. \<not> isEntryValid nr now (snd q)) c =
      filter (\<lambda>(k, e). \<not> isEntryValid nr now e) c"
    by (rule filter_cong) auto
  ultimately show ?thesis
    unfolding cleanLoop_eq by simp
qed

lemma map_of_filter_distinct:
  "distinct (map fst c) \<Longrightarrow>
   map_of (filter (\<lambda>(k, e). P e) c) k =
     (case map_of c k of None \<Rightarrow> None | Some e \<Rightarrow> if P e then Some e else None)"
proof (induction c)
  case Nil
  then show ?case by simp
next
  case (Cons p c)
  obtain k' e' where p: "p = (k', e')" by (cases p)
  from Cons.prems p have notin: "k' \<notin> fst ` set c" and d: "distinct (map fst c)"
    by auto
  from notin have "map_of c k' = None"
    by (simp add: map_of_eq_None_iff)
  with Cons.IH [OF d] p show ?case
    by (auto split: option.splits)
qed

text \<open>
  Claim C7. On a cache with one entry for a key, \<^verbatim>\<open>CleanExpiredCache\<close> keeps exactly
  the entries that are valid at the time of the call, each as it was and in its place,
  removes the others and returns how many it removed; it changes nothing else of the
  resolver. An entry is not valid when its age is at least the TTL of its class.
\<close>

theorem CleanExpiredCache_exact:
  assumes "distinct (map fst (cache nr))"
  shows "cache (snd (CleanExpiredCache nr now)) =
           filter (\<lambda>(k, e). isEntryValid nr now e) (cache nr) \<and>
         fst (CleanExpiredCache nr now) =
           length (filter (\<lambda>(k, e). \<not> isEntryValid nr now e) (cache nr)) \<and>
         fst (CleanExpiredCache nr now) =
           length (cache nr) - length (cache (snd (CleanExpiredCache nr now))) \<and>
         map_of (cache (snd (CleanExpiredCache nr now))) k =
           (case map_of (cache nr) k of
              None \<Rightarrow> None
            | Some e \<Rightarrow> if isEntryValid nr now e then Some e else None) \<and>
         snd (CleanExpiredCache nr now) = nr\<lparr>cache := cache (snd (CleanExpiredCache nr now))\<rparr>"
proof -
  let ?c = "cache nr"
  have eq: "CleanExpiredCache nr now =
     (length (filter (\<lambda>(k, e). \<not> isEntryValid nr now e) ?c),
      nr\<lparr>cache := filter (\<lambda>(k, e). isEntryValid nr now e) ?c\<rparr>)"
    by (simp add: CleanExpiredCache_def cleanLoop_distinct [OF assms])
  have len: "length (filter (\<lambda>(k, e). \<not> isEntryValid nr now e) ?c) =
      length ?c - length (filter (\<lambda>(k, e). isEntryValid nr now e) ?c)"
  proof -
    have "length (filter (\<lambda>(k, e). isEntryValid nr now e) es) +
        length (filter (\<lambda>(k, e). \<not> isEntryValid nr now e) es) = length es"
      for es :: "(string \<times> cacheEntry) list"
      by (induction es) auto
    from this [of ?c] show ?thesis by linarith
  qed
  show ?thesis
    using len by (simp add: eq map_of_filter_distinct [OF assms])
qed

theorem CleanExpiredCache_exact_witness:
  "distinct (map fst (cache (GetNameResolver\<lparr>cache :=
      [(''42'', positiveEntry ''42'' ''acme'' 10), (''43'', negativeEntry ''43'' 10)]\<rparr>))) \<and>
   fst (CleanExpiredCache (GetNameResolver\<lparr>cache :=
      [(''42'', positiveEntry ''42'' ''acme'' 10), (''43'', negativeEntry ''43'' 10)]\<rparr>)
      (10 + 3600 * 1000000000)) = 1 \<and>
   cache (snd (CleanExpiredCache (GetNameResolver\<lparr>cache :=
      [(''42'', positiveEntry ''42'' ''acme'' 10), (''43'', negativeEntry ''43'' 10)]\<rparr>)
      (10 + 3600 * 1000000000))) = [(''42'', positiveEntry ''42'' ''acme'' 10)]"
proof -
  let ?nr = "GetNameResolver\<lparr>cache :=
      [(''42'', positiveEntry ''42'' ''acme'' 10), (''43'', negativeEntry ''43'' 10)]\<rparr>"
  have d: "distinct (map fst (cache ?nr))"
    by simp
  have v: "isEntryValid ?nr (10 + 3600 * 1000000000) (positiveEntry ''42'' ''acme'' 10)"
    "\<not> isEntryValid ?nr (10 + 3600 * 1000000000) (negativeEntry ''43'' 10)"
    by (simp_all add: isEntryValid_def Since_def positiveEntry_def negativeEntry_def
        GetNameResolver_def Hour_def)
  from CleanExpiredCache_exact [OF d, of "10 + 3600 * 1000000000"] d v
  show ?thesis
    by simp
qed

subsection \<open>Statistics\<close>

lemma countEntries_eq:
  "countEntries nr now es (f, n, e) =
     (f + length (filter (\<lambda>(k, x). isEntryValid nr now x \<and> \<not> notFound x) es),
      n + length (filter (\<lambda>(k, x). isEntryValid nr now x \<and> notFound x) es),
      e + length (filter (\<lambda>(k, x). \<not> isEntryValid nr now x) es))"
  by (induction es arbitrary: f n e) auto

text \<open>
  Claim C8. \<^verbatim>\<open>GetCacheStats\<close> counts every stored entry once: \<open>total\<close> is the
  number of entries, \<open>found\<close> the number of valid positive ones, \<open>not_found\<close> the
  number of valid negative ones and \<open>expired\<close> the number of entries that are stored but
  no longer valid. So when no stored entry has expired, \<open>expired\<close> is 0 and \<open>total\<close>
  is \<open>found + not_found\<close>. The function returns the statistics only: it has no resolver
  to return, and the cache is as it was.
\<close>

theorem GetCacheStats_counts:
  "stats.total (GetCacheStats nr now) = length (cache nr) \<and>
   found (GetCacheStats nr now) =
     length (filter (\<lambda>(k, x). isEntryValid nr now x \<and> \<not> notFound x) (cache nr)) \<and>
   not_found (GetCacheStats nr now) =
     length (filter (\<lambda>(k, x). isEntryValid nr now x \<and> notFound x) (cache nr)) \<and>
   expired (GetCacheStats nr now) =
     length (filter (\<lambda>(k, x). \<not> isEntryValid nr now x) (cache nr)) \<and>
   stats.total (GetCacheStats nr now) =
     found (GetCacheStats nr now) + not_found (GetCacheStats nr now) +
     expired (GetCacheStats nr now) \<and>
   ((\<forall>p \<in> set (cache nr). isEntryValid nr now (snd p)) \<longrightarrow>
      expired (GetCacheStats nr now) = 0 \<and>
      stats.total (GetCacheStats nr now) =
        found (GetCacheStats nr now) + not_found (GetCacheStats nr now))"
proof -
  let ?c = "cache nr"
  let ?F = "\<lambda>(k, x). isEntryValid nr now x \<and> \<not> notFound x"
  let ?N = "\<lambda>(k, x). isEntryValid nr now x \<and> notFound x"
  let ?E = "\<lambda>(k, x). \<not> isEntryValid nr now x"
  have st: "GetCacheStats nr now =
     \<lparr>total = length ?c, found = length (filter ?F ?c), not_found = length (filter ?N ?c),
      expired = length (filter ?E ?c), cache_ttl = cacheTTL nr, not_found_ttl = notFoundTTL nr\<rparr>"
    by (simp add: GetCacheStats_def countEntries_eq)
  have sum: "length es = length (filter ?F es) + length (filter ?N es) + length (filter ?E es)"
    for es :: "(string \<times> cacheEntry) list"
    by (induction es) auto
  have none: "length (filter ?E ?c) = 0" if "\<forall>p \<in> set ?c. isEntryValid nr now (snd p)"
    using that by (auto simp: filter_empty_conv)
  show ?thesis
    unfolding st using sum [of ?c] none by simp
qed

theorem GetCacheStats_counts_witness:
  "isEntryValid (GetNameResolver\<lparr>cache :=
      [(''42'', positiveEntry ''42'' ''acme'' 10), (''43'', negativeEntry ''43'' 10)]\<rparr>)
      20 (positiveEntry ''42'' ''acme'' 10) \<and>
   isEntryValid (GetNameResolver\<lparr>cache :=
      [(''42'', positiveEntry ''42'' ''acme'' 10), (''43'', negativeEntry ''43'' 10)]\<rparr>)
      20 (negativeEntry ''43'' 10) \<and>
   GetCacheStats (GetNameResolver\<lparr>cache :=
      [(''42'', positiveEntry ''42'' ''acme'' 10), (''43'', negativeEntry ''43'' 10)]\<rparr>) 20 =
     \<lparr>total = 2, found = 1, not_found = 1, expired = 0,
      cache_ttl = 24 * 3600 * 1000000000, not_found_ttl = 3600 * 1000000000\<rparr>"
proof -
  let ?nr = "GetNameResolver\<lparr>cache :=
      [(''42'', positiveEntry ''42'' ''acme'' 10), (''43'', negativeEntry ''43'' 10)]\<rparr>"
  have v: "isEntryValid ?nr 20 (positiveEntry ''42'' ''acme'' 10)"
    "isEntryValid ?nr 20 (negativeEntry ''43'' 10)"
    by (simp_all add: isEntryValid_def Since_def positiveEntry_def negativeEntry_def
        GetNameResolver_def Hour_def)
  have n: "\<not> notFound (positiveEntry ''42'' ''acme'' 10)" "notFound (negativeEntry ''43'' 10)"
    by (simp_all add: positiveEntry_def negativeEntry_def)
  have t: "cache_ttl (GetCacheStats ?nr 20) = 24 * 3600 * 1000000000"
    "not_found_ttl (GetCacheStats ?nr 20) = 3600 * 1000000000"
    by (simp_all add: GetCacheStats_def GetNameResolver_def Hour_def split: prod.splits)
  from GetCacheStats_counts [of ?nr 20] v n
  have "stats.total (GetCacheStats ?nr 20) = 2" "found (GetCacheStats ?nr 20) = 1"
    "not_found (GetCacheStats ?nr 20) = 1" "expired (GetCacheStats ?nr 20) = 0"
    by simp_all
  with t have "GetCacheStats ?nr 20 =
     \<lparr>total = 2, found = 1, not_found = 1, expired = 0,
      cache_ttl = 24 * 3600 * 1000000000, not_found_ttl = 3600 * 1000000000\<rparr>"
    by (cases "GetCacheStats ?nr 20") simp
  with v show ?thesis
    by simp
qed

subsection \<open>The records of the reachable caches\<close>

lemma set_update_subset: "set (AList.update k v al) \<subseteq> insert (k, v) (set al)"
  by (induction al) auto

lemma store_entries:
  "set (cache (store ident e nr)) \<subseteq> insert (ident, e) (set (cache nr))"
  by (simp add: store_def set_update_subset)

lemma store_distinct:
  "distinct (map fst (cache nr)) \<Longrightarrow> distinct (map fst (cache (store ident e nr)))"
  by (simp add: store_def distinct_update)

lemma CleanExpiredCache_entries:
  "set (cache (snd (CleanExpiredCache nr now))) \<subseteq> set (cache nr)"
  by (auto simp: CleanExpiredCache_def cleanLoop_eq)

lemma CleanExpiredCache_keys_distinct:
  "distinct (map fst (cache nr)) \<Longrightarrow> distinct (map fst (cache (snd (CleanExpiredCache nr now))))"
  by (simp add: CleanExpiredCache_def cleanLoop_eq distinct_map_filter)

lemma Resolve_entries:
  assumes "\<forall>p \<in> set (cache nr). entryOK p"
  shows "\<forall>p \<in> set (cache (resolver (Resolve db now nr ident))). entryOK p"
proof -
  have st: "\<forall>p \<in> set (cache (store ident e nr)). entryOK p" if "entryOK (ident, e)" for e
    using store_entries [of ident e nr] assms that by blast
  have pos: "entryOK (ident, \<lparr>info = i, notFound = False, timestamp = now\<rparr>)" if "ID i = ident" for i
    using that by (simp add: entryOK_def)
  have neg: "entryOK (ident, \<lparr>info = idNameInfo ident, notFound = True, timestamp = now\<rparr>)"
    by (simp add: entryOK_def idNameInfo_def)
  from Resolve_resolver_cases [of db now nr ident] show ?thesis
  proof (elim disjE exE conjE)
    assume "resolver (Resolve db now nr ident) = nr"
    with assms show ?thesis by simp
  next
    assume "resolver (Resolve db now nr ident) = logMiss ident ''TiDB_not_connected'' nr"
    with assms show ?thesis by (simp add: logMiss_cache)
  next
    fix i assume "ID i = ident"
      and "resolver (Resolve db now nr ident) =
        store ident \<lparr>info = i, notFound = False, timestamp = now\<rparr> nr"
    with st [OF pos] show ?thesis by simp
  next
    assume "resolver (Resolve db now nr ident) =
      logMiss ident ''not_found_in_database''
        (store ident \<lparr>info = idNameInfo ident, notFound = True, timestamp = now\<rparr> nr)"
    with st [OF neg] show ?thesis by (simp add: logMiss_cache)
  qed
qed

lemma Resolve_distinct:
  assumes "distinct (map fst (cache nr))"
  shows "distinct (map fst (cache (resolver (Resolve db now nr ident))))"
  using Resolve_resolver_cases [of db now nr ident] assms
  by (elim disjE exE conjE) (simp_all add: logMiss_cache store_distinct)

lemma reachable_entries: "reachable nr \<Longrightarrow> \<forall>p \<in> set (cache nr). entryOK p"
proof (induction rule: reachable.induct)
  case initial
  show ?case by (simp add: GetNameResolver_def)
next
  case (resolve nr db now ident)
  then show ?case by (simp add: Resolve_entries)
next
  case (clear nr)
  show ?case by (simp add: ClearCache_def)
next
  case (cleanExpired nr now)
  then show ?case using CleanExpiredCache_entries [of nr now] by blast
qed

lemma reachable_distinct: "reachable nr \<Longrightarrow> distinct (map fst (cache nr))"
proof (induction rule: reachable.induct)
  case initial
  show ?case by (simp add: GetNameResolver_def)
next
  case (resolve nr db now ident)
  then show ?case by (simp add: Resolve_distinct)
next
  case (clear nr)
  show ?case by (simp add: ClearCache_def)
next
  case (cleanExpired nr now)
  then show ?case by (simp add: CleanExpiredCache_keys_distinct)
qed

text \<open>
  Claim C10. In every resolver reachable through \<^verbatim>\<open>Resolve\<close>, \<^verbatim>\<open>ClearCache\<close> and
  \<^verbatim>\<open>CleanExpiredCache\<close>, the entry stored under a key \<open>k\<close> has a record whose
  \<open>ID\<close> is \<open>k\<close>, and a negative entry has exactly the record with \<open>ID\<close> and
  \<open>Name\<close> equal to \<open>k\<close> and with empty \<open>Type\<close>, \<open>TenantID\<close> and
  \<open>TenantName\<close>.
\<close>

theorem reachable_cache_records:
  assumes "reachable nr" and "map_of (cache nr) k = Some e"
  shows "ID (info e) = k \<and>
         (notFound e \<longrightarrow>
            info e = \<lparr>Type = [], ID = k, Name = k, TenantID = [], TenantName = []\<rparr>)"
proof -
  from assms(2) have "(k, e) \<in> set (cache nr)"
    by (rule map_of_SomeD)
  with reachable_entries [OF assms(1)] have "entryOK (k, e)"
    by blast
  then show ?thesis
    by (simp add: entryOK_def idNameInfo_def)
qed

lemmas eval_defs = Resolve_def lookupValid_def isNumeric_def less_char_def
  tryCluster_def tryTenant_def tryTenantName_def tryClusterName_def
  getCluster_def getTenant_def getTenantName_def getClusterName_def
  store_def logMiss_def idNameInfo_def GetNameResolver_def emptyDB_def

theorem reachable_cache_records_witness:
  "reachable (resolver (Resolve (Some emptyDB) 5 GetNameResolver ''12'')) \<and>
   map_of (cache (resolver (Resolve (Some emptyDB) 5 GetNameResolver ''12''))) ''12'' =
     Some (negativeEntry ''12'' 5) \<and>
   notFound (negativeEntry ''12'' 5) \<and>
   ID (info (negativeEntry ''12'' 5)) = ''12'' \<and>
   info (negativeEntry ''12'' 5) =
     \<lparr>Type = [], ID = ''12'', Name = ''12'', TenantID = [], TenantName = []\<rparr>"
proof -
  let ?nr = "resolver (Resolve (Some emptyDB) 5 GetNameResolver ''12'')"
  have r: "reachable ?nr"
    by (intro reachable.intros)
  have m: "map_of (cache ?nr) ''12'' = Some (negativeEntry ''12'' 5)"
    by (simp add: eval_defs negativeEntry_def)
  have n: "notFound (negativeEntry ''12'' 5)"
    by (simp add: negativeEntry_def)
  from reachable_cache_records [OF r m] r m n show ?thesis
    by simp
qed

subsection \<open>The fallback chain\<close>

lemma tryCluster_Scanned:
  "clusters_by_id tidb ident = Scanned ci \<Longrightarrow>
   tryCluster tidb now nr ident \<noteq> None \<and>
   observed (the (tryCluster tidb now nr ident)) =
     (\<lparr>Type = ''cluster'', ID = ident,
       Name = (if DeployType ci = ''nextgen-host'' \<and> (ClusterName ci = [] \<or> ClusterName ci = ident)
               then premiumName tidb ident (ClusterName ci) else ClusterName ci),
       TenantID = ClusterInfo.TenantID ci, TenantName = ClusterInfo.TenantName ci\<rparr>,
      None,
      ClusterById ident #
        (if DeployType ci = ''nextgen-host'' \<and> (ClusterName ci = [] \<or> ClusterName ci = ident)
         then [PremiumNamesByParentId ident] else []))"
  by (simp add: tryCluster_def getCluster_def observed_def Let_def)

lemma tryCluster_None:
  "(\<forall>ci. clusters_by_id tidb ident \<noteq> Scanned ci) \<Longrightarrow> tryCluster tidb now nr ident = None"
  by (cases "clusters_by_id tidb ident") (simp_all add: tryCluster_def getCluster_def)

lemma tryTenant_Scanned:
  "tenants_by_id tidb ident = Scanned ti \<Longrightarrow>
   tryTenant tidb now nr ident \<noteq> None \<and>
   observed (the (tryTenant tidb now nr ident)) =
     (\<lparr>Type = ''tenant'', ID = ident, Name = TenantInfo.TenantName ti,
       TenantID = [], TenantName = []\<rparr>,
      None, [ClusterById ident, TenantById ident])"
  by (simp add: tryTenant_def getTenant_def observed_def Let_def)

lemma tryTenant_None:
  "(\<forall>ti. tenants_by_id tidb ident \<noteq> Scanned ti) \<Longrightarrow> tryTenant tidb now nr ident = None"
  by (cases "tenants_by_id tidb ident") (simp_all add: tryTenant_def getTenant_def)

lemma tryTenantName_Scanned:
  "tenant_name_by_id tidb ident = Scanned n \<Longrightarrow> n \<noteq> [] \<Longrightarrow>
   tryTenantName tidb now nr ident \<noteq> None \<and>
   observed (the (tryTenantName tidb now nr ident)) =
     (\<lparr>Type = ''tenant'', ID = ident, Name = n, TenantID = [], TenantName = []\<rparr>,
      None, [ClusterById ident, TenantById ident, TenantNameById ident])"
  by (simp add: tryTenantName_def getTenantName_def observed_def Let_def)

lemma tryTenantName_None:
  "(\<forall>n. tenant_name_by_id tidb ident = Scanned n \<longrightarrow> n = []) \<Longrightarrow>
   tryTenantName tidb now nr ident = None"
  by (cases "tenant_name_by_id tidb ident") (simp_all add: tryTenantName_def getTenantName_def)

lemma tryClusterName_Scanned:
  "cluster_name_by_id tidb ident = Scanned n \<Longrightarrow> n \<noteq> [] \<Longrightarrow>
   tryClusterName tidb now nr ident \<noteq> None \<and>
   observed (the (tryClusterName tidb now nr ident)) =
     (\<lparr>Type = ''cluster'', ID = ident, Name = n, TenantID = [], TenantName = []\<rparr>,
      None, [ClusterById ident, TenantById ident, TenantNameById ident, ClusterNameById ident])"
  by (simp add: tryClusterName_def getClusterName_def observed_def Let_def)

lemma tryClusterName_None:
  "(\<forall>n. cluster_name_by_id tidb ident = Scanned n \<longrightarrow> n = []) \<Longrightarrow>
   tryClusterName tidb now nr ident = None"
  by (cases "cluster_name_by_id tidb ident") (simp_all add: tryClusterName_def getClusterName_def)

lemma observed_simps:
  "observed out = (r, e, q) \<longleftrightarrow> result out = r \<and> err out = e \<and> queries out = q"
  by (auto simp: observed_def)

text \<open>
  Claim C1. For a numeric identifier with no valid cache entry and a database at hand,
  \<^verbatim>\<open>Resolve\<close> asks for the cluster by id, then the tenant by id, then the tenant name,
  then the cluster name, and stops at the first step that yields a result; the statements
  it has sent say how far it went. A step whose scan gives an error (or no row, or for the
  two name steps an empty name) is not a result, and the next step runs; when the last step
  yields nothing the error is \<open>NotFound\<close>. A cluster row is a result whatever its name:
  when its deploy type is not \<^verbatim>\<open>nextgen-host\<close> the name returned is the stored one,
  empty or not, and only the cluster statement has been sent.
\<close>

theorem Resolve_fallback_chain:
  assumes "isNumeric ident" and "lookupValid nr now ident = None"
  shows
   "(\<forall>ci. clusters_by_id tidb ident = Scanned ci \<longrightarrow>
       err (Resolve (Some tidb) now nr ident) = None \<and>
       Type (result (Resolve (Some tidb) now nr ident)) = ''cluster'' \<and>
       ID (result (Resolve (Some tidb) now nr ident)) = ident \<and>
       (queries (Resolve (Some tidb) now nr ident) = [ClusterById ident] \<or>
        queries (Resolve (Some tidb) now nr ident) =
          [ClusterById ident, PremiumNamesByParentId ident]) \<and>
       (DeployType ci \<noteq> ''nextgen-host'' \<longrightarrow>
          Name (result (Resolve (Some tidb) now nr ident)) = ClusterName ci \<and>
          queries (Resolve (Some tidb) now nr ident) = [ClusterById ident])) \<and>
    ((\<forall>ci. clusters_by_id tidb ident \<noteq> Scanned ci) \<longrightarrow>
       (\<forall>ti. tenants_by_id tidb ident = Scanned ti \<longrightarrow>
          err (Resolve (Some tidb) now nr ident) = None \<and>
          result (Resolve (Some tidb) now nr ident) =
            \<lparr>Type = ''tenant'', ID = ident, Name = TenantInfo.TenantName ti,
             TenantID = [], TenantName = []\<rparr> \<and>
          queries (Resolve (Some tidb) now nr ident) = [ClusterById ident, TenantById ident]) \<and>
       ((\<forall>ti. tenants_by_id tidb ident \<noteq> Scanned ti) \<longrightarrow>
          (\<forall>n. tenant_name_by_id tidb ident = Scanned n \<and> n \<noteq> [] \<longrightarrow>
             err (Resolve (Some tidb) now nr ident) = None \<and>
             result (Resolve (Some tidb) now nr ident) =
               \<lparr>Type = ''tenant'', ID = ident, Name = n, TenantID = [], TenantName = []\<rparr> \<and>
             queries (Resolve (Some tidb) now nr ident) =
               [ClusterById ident, TenantById ident, TenantNameById ident]) \<and>
          ((\<forall>n. tenant_name_by_id tidb ident = Scanned n \<longrightarrow> n = []) \<longrightarrow>
             queries (Resolve (Some tidb) now nr ident) =
               [ClusterById ident, TenantById ident, TenantNameById ident,
                ClusterNameById ident] \<and>
             (\<forall>n. cluster_name_by_id tidb ident = Scanned n \<and> n \<noteq> [] \<longrightarrow>
                err (Resolve (Some tidb) now nr ident) = None \<and>
                result (Resolve (Some tidb) now nr ident) =
                  \<lparr>Type = ''cluster'', ID = ident, Name = n, TenantID = [], TenantName = []\<rparr>) \<and>
             ((\<forall>n. cluster_name_by_id tidb ident = Scanned n \<longrightarrow> n = []) \<longrightarrow>
                err (Resolve (Some tidb) now nr ident) = Some (NotFound ident)))))"
proof -
  note chain = Resolve_chain [OF assms, of tidb]
  have c1: "observed (Resolve (Some tidb) now nr ident) =
      observed (the (tryCluster tidb now nr ident))"
    if "clusters_by_id tidb ident = Scanned ci" for ci
    using tryCluster_Scanned [OF that, of now nr] by (auto simp: chain)
  have c2: "observed (Resolve (Some tidb) now nr ident) =
      observed (the (tryTenant tidb now nr ident))"
    if "\<forall>ci. clusters_by_id tidb ident \<noteq> Scanned ci" "tenants_by_id tidb ident = Scanned ti" for ti
    using tryCluster_None [OF that(1), of now nr] tryTenant_Scanned [OF that(2), of now nr]
    by (auto simp: chain)
  have c3: "observed (Resolve (Some tidb) now nr ident) =
      observed (the (tryTenantName tidb now nr ident))"
    if "\<forall>ci. clusters_by_id tidb ident \<noteq> Scanned ci" "\<forall>ti. tenants_by_id tidb ident \<noteq> Scanned ti"
      "tenant_name_by_id tidb ident = Scanned n" "n \<noteq> []" for n
    using tryCluster_None [OF that(1), of now nr] tryTenant_None [OF that(2), of now nr]
      tryTenantName_Scanned [OF that(3,4), of now nr]
    by (auto simp: chain)
  have c4: "observed (Resolve (Some tidb) now nr ident) =
      observed (the (tryClusterName tidb now nr ident))"
    if "\<forall>ci. clusters_by_id tidb ident \<noteq> Scanned ci" "\<forall>ti. tenants_by_id tidb ident \<noteq> Scanned ti"
      "\<forall>n. tenant_name_by_id tidb ident = Scanned n \<longrightarrow> n = []"
      "cluster_name_by_id tidb ident = Scanned n" "n \<noteq> []" for n
    using tryCluster_None [OF that(1), of now nr] tryTenant_None [OF that(2), of now nr]
      tryTenantName_None [OF that(3), of now nr] tryClusterName_Scanned [OF that(4,5), of now nr]
    by (auto simp: chain)
  have c5: "observed (Resolve (Some tidb) now nr ident) =
      (idNameInfo ident, Some (NotFound ident),
       [ClusterById ident, TenantById ident, TenantNameById ident, ClusterNameById ident])"
    if "\<forall>ci. clusters_by_id tidb ident \<noteq> Scanned ci" "\<forall>ti. tenants_by_id tidb ident \<noteq> Scanned ti"
      "\<forall>n. tenant_name_by_id tidb ident = Scanned n \<longrightarrow> n = []"
      "\<forall>n. cluster_name_by_id tidb ident = Scanned n \<longrightarrow> n = []"
    using tryCluster_None [OF that(1), of now nr] tryTenant_None [OF that(2), of now nr]
      tryTenantName_None [OF that(3), of now nr] tryClusterName_None [OF that(4), of now nr]
    by (simp add: chain observed_def)
  have q4: "queries (Resolve (Some tidb) now nr ident) =
      [ClusterById ident, TenantById ident, TenantNameById ident, ClusterNameById ident]"
    if h: "\<forall>ci. clusters_by_id tidb ident \<noteq> Scanned ci" "\<forall>ti. tenants_by_id tidb ident \<noteq> Scanned ti"
      "\<forall>n. tenant_name_by_id tidb ident = Scanned n \<longrightarrow> n = []"
  proof (cases "\<forall>n. cluster_name_by_id tidb ident = Scanned n \<longrightarrow> n = []")
    case True
    from c5 [OF h True] show ?thesis by (simp add: observed_def)
  next
    case False
    then obtain n where n: "cluster_name_by_id tidb ident = Scanned n" "n \<noteq> []" by blast
    from c4 [OF h n] tryClusterName_Scanned [OF n, of now nr] show ?thesis
      by (simp add: observed_def)
  qed
  show ?thesis
  proof (intro conjI allI impI)
    fix ci assume ci: "clusters_by_id tidb ident = Scanned ci"
    note o = c1 [OF ci] tryCluster_Scanned [OF ci, of now nr]
    from o show "err (Resolve (Some tidb) now nr ident) = None"
      by (simp add: observed_def)
    from o show "Type (result (Resolve (Some tidb) now nr ident)) = ''cluster''"
      by (simp add: observed_def)
    from o show "ID (result (Resolve (Some tidb) now nr ident)) = ident"
      by (simp add: observed_def)
    from o show "queries (Resolve (Some tidb) now nr ident) = [ClusterById ident] \<or>
        queries (Resolve (Some tidb) now nr ident) =
          [ClusterById ident, PremiumNamesByParentId ident]"
      by (simp add: observed_def)
    assume "DeployType ci \<noteq> ''nextgen-host''"
    with o show "Name (result (Resolve (Some tidb) now nr ident)) = ClusterName ci"
      and "queries (Resolve (Some tidb) now nr ident) = [ClusterById ident]"
      by (simp_all add: observed_def)
  next
    fix ti
    assume h: "\<forall>ci. clusters_by_id tidb ident \<noteq> Scanned ci" "tenants_by_id tidb ident = Scanned ti"
    note o = c2 [OF h] tryTenant_Scanned [OF h(2), of now nr]
    from o show "err (Resolve (Some tidb) now nr ident) = None"
      and "result (Resolve (Some tidb) now nr ident) =
            \<lparr>Type = ''tenant'', ID = ident, Name = TenantInfo.TenantName ti,
             TenantID = [], TenantName = []\<rparr>"
      and "queries (Resolve (Some tidb) now nr ident) = [ClusterById ident, TenantById ident]"
      by (simp_all add: observed_def)
  next
    fix n
    assume h: "\<forall>ci. clusters_by_id tidb ident \<noteq> Scanned ci"
      "\<forall>ti. tenants_by_id tidb ident \<noteq> Scanned ti"
      and n: "tenant_name_by_id tidb ident = Scanned n \<and> n \<noteq> []"
    from n have n': "tenant_name_by_id tidb ident = Scanned n" "n \<noteq> []" by simp_all
    note o = c3 [OF h n'] tryTenantName_Scanned [OF n', of now nr]
    from o show "err (Resolve (Some tidb) now nr ident) = None"
      and "result (Resolve (Some tidb) now nr ident) =
               \<lparr>Type = ''tenant'', ID = ident, Name = n, TenantID = [], TenantName = []\<rparr>"
      and "queries (Resolve (Some tidb) now nr ident) =
               [ClusterById ident, TenantById ident, TenantNameById ident]"
      by (simp_all add: observed_def)
  next
    assume h: "\<forall>ci. clusters_by_id tidb ident \<noteq> Scanned ci"
      "\<forall>ti. tenants_by_id tidb ident \<noteq> Scanned ti"
      "\<forall>n. tenant_name_by_id tidb ident = Scanned n \<longrightarrow> n = []"
    from q4 [OF h] show "queries (Resolve (Some tidb) now nr ident) =
               [ClusterById ident, TenantById ident, TenantNameById ident,
                ClusterNameById ident]" .
    {
      fix n assume n: "cluster_name_by_id tidb ident = Scanned n \<and> n \<noteq> []"
      then have n': "cluster_name_by_id tidb ident = Scanned n" "n \<noteq> []" by simp_all
      note o = c4 [OF h n'] tryClusterName_Scanned [OF n', of now nr]
      from o show "err (Resolve (Some tidb) now nr ident) = None"
        and "result (Resolve (Some tidb) now nr ident) =
                  \<lparr>Type = ''cluster'', ID = ident, Name = n, TenantID = [], TenantName = []\<rparr>"
        by (simp_all add: observed_def)
    }
    assume "\<forall>n. cluster_name_by_id tidb ident = Scanned n \<longrightarrow> n = []"
    from c5 [OF h this] show "err (Resolve (Some tidb) now nr ident) = Some (NotFound ident)"
      by (simp add: observed_def)
  qed
qed

lemma numeric_12: "isNumeric ''12''"
  by (simp add: isNumeric_def less_char_def)

lemma fresh_12: "lookupValid GetNameResolver now ''12'' = None"
  by (simp add: lookupValid_def GetNameResolver_def)

theorem Resolve_fallback_chain_witness:
  "isNumeric ''12'' \<and> lookupValid GetNameResolver 5 ''12'' = None \<and>
   clusters_by_id tenantOnlyDB ''12'' = ScanError ''connection reset'' \<and>
   result (Resolve (Some tenantOnlyDB) 5 GetNameResolver ''12'') =
     \<lparr>Type = ''tenant'', ID = ''12'', Name = ''acme'', TenantID = [], TenantName = []\<rparr> \<and>
   err (Resolve (Some tenantOnlyDB) 5 GetNameResolver ''12'') = None \<and>
   queries (Resolve (Some tenantOnlyDB) 5 GetNameResolver ''12'') =
     [ClusterById ''12'', TenantById ''12''] \<and>
   DeployType (noCluster\<lparr>ClusterID := ''12'', DeployType := ''dedicated''\<rparr>) \<noteq> ''nextgen-host'' \<and>
   err (Resolve (Some unnamedClusterDB) 5 GetNameResolver ''12'') = None \<and>
   Type (result (Resolve (Some unnamedClusterDB) 5 GetNameResolver ''12'')) = ''cluster'' \<and>
   Name (result (Resolve (Some unnamedClusterDB) 5 GetNameResolver ''12'')) = [] \<and>
   queries (Resolve (Some unnamedClusterDB) 5 GetNameResolver ''12'') = [ClusterById ''12''] \<and>
   err (Resolve (Some emptyDB) 5 GetNameResolver ''12'') = Some (NotFound ''12'') \<and>
   queries (Resolve (Some emptyDB) 5 GetNameResolver ''12'') =
     [ClusterById ''12'', TenantById ''12'', TenantNameById ''12'', ClusterNameById ''12'']"
proof -
  note inst = Resolve_fallback_chain [OF numeric_12 fresh_12, of _ 5]
  have a: "clusters_by_id tenantOnlyDB ''12'' = ScanError ''connection reset''"
    by (simp add: tenantOnlyDB_def emptyDB_def)
  from inst [of tenantOnlyDB]
  have t: "result (Resolve (Some tenantOnlyDB) 5 GetNameResolver ''12'') =
       \<lparr>Type = ''tenant'', ID = ''12'', Name = ''acme'', TenantID = [], TenantName = []\<rparr>"
    "err (Resolve (Some tenantOnlyDB) 5 GetNameResolver ''12'') = None"
    "queries (Resolve (Some tenantOnlyDB) 5 GetNameResolver ''12'') =
       [ClusterById ''12'', TenantById ''12'']"
    by (simp_all add: tenantOnlyDB_def emptyDB_def)
  have d: "DeployType (noCluster\<lparr>ClusterID := ''12'', DeployType := ''dedicated''\<rparr>) \<noteq> ''nextgen-host''"
    by simp
  from inst [of unnamedClusterDB]
  have u: "err (Resolve (Some unnamedClusterDB) 5 GetNameResolver ''12'') = None"
    "Type (result (Resolve (Some unnamedClusterDB) 5 GetNameResolver ''12'')) = ''cluster''"
    "Name (result (Resolve (Some unnamedClusterDB) 5 GetNameResolver ''12'')) = []"
    "queries (Resolve (Some unnamedClusterDB) 5 GetNameResolver ''12'') = [ClusterById ''12'']"
    by (simp_all add: unnamedClusterDB_def emptyDB_def noCluster_def)
  from inst [of emptyDB]
  have e: "err (Resolve (Some emptyDB) 5 GetNameResolver ''12'') = Some (NotFound ''12'')"
    "queries (Resolve (Some emptyDB) 5 GetNameResolver ''12'') =
       [ClusterById ''12'', TenantById ''12'', TenantNameById ''12'', ClusterNameById ''12'']"
    by (simp_all add: emptyDB_def)
  from numeric_12 fresh_12 a t d u e show ?thesis
    by simp
qed

subsection \<open>The definitive miss\<close>

lemma map_of_store:
  "map_of (cache (store ident e nr)) k = (if k = ident then Some e else map_of (cache nr) k)"
  by (simp add: store_def update_conv')

lemma missLogger_logMiss:
  "missLogger (logMiss ident reason nr) =
     map_option (\<lambda>ls. ls @ [''ID='' @ ident @ '' reason='' @ reason]) (missLogger nr)"
  by (simp add: logMiss_def split: option.splits)

lemma missLogger_store: "missLogger (store ident e nr) = missLogger nr"
  by (simp add: store_def)

text \<open>
  Claim C3. When none of the four steps yields a result (no cluster row, no tenant row, and
  from each of the two name statements no name or the empty one; an error is no row),
  \<^verbatim>\<open>Resolve\<close> of a numeric identifier with no valid cache entry returns
  \<open>{id, name: id}\<close> with the error \<open>NotFound\<close>, the cache holds for the identifier a
  negative entry with that record and the time of the call (the other keys are as they
  were), and the miss logger, unless it is nil, has one more line, with the reason that the
  code writes as \<^verbatim>\<open>not_found_in_database\<close> (the database is the spec's backend).
\<close>

theorem Resolve_definitive_miss:
  assumes "isNumeric ident" and "lookupValid nr now ident = None"
    and "\<forall>ci. clusters_by_id tidb ident \<noteq> Scanned ci"
    and "\<forall>ti. tenants_by_id tidb ident \<noteq> Scanned ti"
    and "\<forall>n. tenant_name_by_id tidb ident = Scanned n \<longrightarrow> n = []"
    and "\<forall>n. cluster_name_by_id tidb ident = Scanned n \<longrightarrow> n = []"
  shows "result (Resolve (Some tidb) now nr ident) =
           \<lparr>Type = [], ID = ident, Name = ident, TenantID = [], TenantName = []\<rparr> \<and>
         err (Resolve (Some tidb) now nr ident) = Some (NotFound ident) \<and>
         map_of (cache (resolver (Resolve (Some tidb) now nr ident))) ident =
           Some \<lparr>info = \<lparr>Type = [], ID = ident, Name = ident, TenantID = [], TenantName = []\<rparr>,
                 notFound = True, timestamp = now\<rparr> \<and>
         missLogger (resolver (Resolve (Some tidb) now nr ident)) =
           map_option (\<lambda>ls. ls @ [''ID='' @ ident @ '' reason=not_found_in_database''])
             (missLogger nr) \<and>
         (\<forall>k. k \<noteq> ident \<longrightarrow>
            map_of (cache (resolver (Resolve (Some tidb) now nr ident))) k = map_of (cache nr) k)"
proof -
  have "Resolve (Some tidb) now nr ident =
     \<lparr>result = idNameInfo ident, err = Some (NotFound ident),
      resolver = logMiss ident ''not_found_in_database''
        (store ident \<lparr>info = idNameInfo ident, notFound = True, timestamp = now\<rparr> nr),
      queries = [ClusterById ident, TenantById ident, TenantNameById ident,
                 ClusterNameById ident]\<rparr>"
    using tryCluster_None [OF assms(3), of now nr] tryTenant_None [OF assms(4), of now nr]
      tryTenantName_None [OF assms(5), of now nr] tryClusterName_None [OF assms(6), of now nr]
    by (simp add: Resolve_chain [OF assms(1,2)])
  then show ?thesis
    by (simp add: logMiss_cache map_of_store missLogger_logMiss missLogger_store idNameInfo_def)
qed

theorem Resolve_definitive_miss_witness:
  "isNumeric ''12'' \<and> lookupValid GetNameResolver 5 ''12'' = None \<and>
   result (Resolve (Some emptyDB) 5 GetNameResolver ''12'') =
     \<lparr>Type = [], ID = ''12'', Name = ''12'', TenantID = [], TenantName = []\<rparr> \<and>
   err (Resolve (Some emptyDB) 5 GetNameResolver ''12'') = Some (NotFound ''12'') \<and>
   map_of (cache (resolver (Resolve (Some emptyDB) 5 GetNameResolver ''12''))) ''12'' =
     Some \<lparr>info = \<lparr>Type = [], ID = ''12'', Name = ''12'', TenantID = [], TenantName = []\<rparr>,
           notFound = True, timestamp = 5\<rparr> \<and>
   missLogger (resolver (Resolve (Some emptyDB) 5 GetNameResolver ''12'')) =
     Some [''ID=12 reason=not_found_in_database'']"
proof -
  have h: "\<forall>ci. clusters_by_id emptyDB ''12'' \<noteq> Scanned ci"
    "\<forall>ti. tenants_by_id emptyDB ''12'' \<noteq> Scanned ti"
    "\<forall>n. tenant_name_by_id emptyDB ''12'' = Scanned n \<longrightarrow> n = []"
    "\<forall>n. cluster_name_by_id emptyDB ''12'' = Scanned n \<longrightarrow> n = []"
    by (simp_all add: emptyDB_def)
  have m: "missLogger GetNameResolver = Some []"
    by (simp add: GetNameResolver_def)
  from Resolve_definitive_miss [OF numeric_12 fresh_12 h, of 5] m numeric_12 fresh_12
  show ?thesis
    by simp
qed

subsection \<open>No database\<close>

lemma lookupValid_mono:
  assumes "lookupValid nr now ident = None" and "now \<le> now'"
  shows "lookupValid nr now' ident = None"
proof (cases "map_of (cache nr) ident")
  case None
  then show ?thesis by (simp add: lookupValid_def)
next
  case (Some e)
  with assms(1) have "\<not> isEntryValid nr now e"
    by (simp add: lookupValid_def split: if_splits)
  with Since_mono [OF assms(2), of "timestamp e"] have "\<not> isEntryValid nr now' e"
    by (simp add: isEntryValid_def Let_def)
  with Some show ?thesis by (simp add: lookupValid_def)
qed

lemma lookupValid_cong:
  "cache nr' = cache nr \<Longrightarrow> cacheTTL nr' = cacheTTL nr \<Longrightarrow> notFoundTTL nr' = notFoundTTL nr \<Longrightarrow>
   lookupValid nr' now ident = lookupValid nr now ident"
  by (cases "map_of (cache nr) ident") (simp_all add: lookupValid_def isEntryValid_def)

lemma Resolve_unavailable:
  assumes "isNumeric ident" and "lookupValid nr now ident = None"
  shows "Resolve None now nr ident =
     \<lparr>result = idNameInfo ident, err = Some BackendUnavailable,
      resolver = logMiss ident ''TiDB_not_connected'' nr, queries = []\<rparr>"
proof -
  from assms(1) have "ident \<noteq> []" by (auto simp: isNumeric_def)
  with assms show ?thesis by (simp add: Resolve_def)
qed

lemma logMiss_TTL:
  "cacheTTL (logMiss ident r nr) = cacheTTL nr" "notFoundTTL (logMiss ident r nr) = notFoundTTL nr"
  by (simp_all add: logMiss_def split: option.splits)

lemma unavailable_repeat:
  assumes "isNumeric ident" and "lookupValid nr now ident = None" and "sorted (now # ts)"
  shows "cache (fold (\<lambda>t r. resolver (Resolve None t r ident)) ts nr) = cache nr \<and>
         cacheTTL (fold (\<lambda>t r. resolver (Resolve None t r ident)) ts nr) = cacheTTL nr \<and>
         notFoundTTL (fold (\<lambda>t r. resolver (Resolve None t r ident)) ts nr) = notFoundTTL nr \<and>
         lookupValid (fold (\<lambda>t r. resolver (Resolve None t r ident)) ts nr) (last (now # ts)) ident
           = None"
  using assms(2,3)
proof (induction ts arbitrary: nr now)
  case Nil
  then show ?case by simp
next
  case (Cons t ts)
  from Cons.prems have le: "now \<le> t" and srt: "sorted (t # ts)" by simp_all
  from lookupValid_mono [OF Cons.prems(1) le] have miss: "lookupValid nr t ident = None" .
  let ?nr = "resolver (Resolve None t nr ident)"
  from Resolve_unavailable [OF assms(1) miss]
  have same: "cache ?nr = cache nr" "cacheTTL ?nr = cacheTTL nr" "notFoundTTL ?nr = notFoundTTL nr"
    by (simp_all add: logMiss_cache logMiss_TTL)
  with miss have "lookupValid ?nr t ident = None"
    using lookupValid_cong [OF same, of t ident] by simp
  from Cons.IH [OF this srt]
  have ih: "cache (fold (\<lambda>t r. resolver (Resolve None t r ident)) ts ?nr) = cache ?nr"
    "cacheTTL (fold (\<lambda>t r. resolver (Resolve None t r ident)) ts ?nr) = cacheTTL ?nr"
    "notFoundTTL (fold (\<lambda>t r. resolver (Resolve None t r ident)) ts ?nr) = notFoundTTL ?nr"
    "lookupValid (fold (\<lambda>t r. resolver (Resolve None t r ident)) ts ?nr) (last (t # ts)) ident
           = None"
    by blast+
  have f: "fold (\<lambda>t r. resolver (Resolve None t r ident)) (t # ts) nr =
      fold (\<lambda>t r. resolver (Resolve None t r ident)) ts ?nr"
    by simp
  have l: "last (now # t # ts) = last (t # ts)"
    by simp
  show ?case
    unfolding f l using ih same by (intro conjI) (rule trans, assumption, assumption)+
qed

text \<open>
  Claim C6. With no database (\<^verbatim>\<open>db.TiDB == nil\<close>), for a numeric identifier with no
  valid cache entry, \<^verbatim>\<open>Resolve\<close> returns \<open>{id, name: id}\<close> with the error
  \<open>BackendUnavailable\<close>, sends no statement, leaves the cache as it was and gives the
  miss logger, unless it is nil, one more line, with the reason that the code writes as
  \<^verbatim>\<open>TiDB_not_connected\<close>. Nothing is cached, so after any number of further such calls
  for the identifier, at times that do not go back, a call does the same again.
\<close>

theorem Resolve_backend_unavailable:
  assumes "isNumeric ident" and "lookupValid nr now ident = None"
  shows "result (Resolve None now nr ident) =
           \<lparr>Type = [], ID = ident, Name = ident, TenantID = [], TenantName = []\<rparr> \<and>
         err (Resolve None now nr ident) = Some BackendUnavailable \<and>
         queries (Resolve None now nr ident) = [] \<and>
         cache (resolver (Resolve None now nr ident)) = cache nr \<and>
         missLogger (resolver (Resolve None now nr ident)) =
           map_option (\<lambda>ls. ls @ [''ID='' @ ident @ '' reason=TiDB_not_connected''])
             (missLogger nr) \<and>
         (\<forall>ts now'. sorted (now # ts @ [now']) \<longrightarrow>
            result (Resolve None now'
              (fold (\<lambda>t r. resolver (Resolve None t r ident)) ts nr) ident) =
              \<lparr>Type = [], ID = ident, Name = ident, TenantID = [], TenantName = []\<rparr> \<and>
            err (Resolve None now'
              (fold (\<lambda>t r. resolver (Resolve None t r ident)) ts nr) ident) =
              Some BackendUnavailable \<and>
            queries (Resolve None now'
              (fold (\<lambda>t r. resolver (Resolve None t r ident)) ts nr) ident) = [] \<and>
            cache (resolver (Resolve None now'
              (fold (\<lambda>t r. resolver (Resolve None t r ident)) ts nr) ident)) = cache nr \<and>
            missLogger (resolver (Resolve None now'
              (fold (\<lambda>t r. resolver (Resolve None t r ident)) ts nr) ident)) =
              map_option (\<lambda>ls. ls @ [''ID='' @ ident @ '' reason=TiDB_not_connected''])
                (missLogger (fold (\<lambda>t r. resolver (Resolve None t r ident)) ts nr)))"
proof -
  have later: "Resolve None now' (fold (\<lambda>t r. resolver (Resolve None t r ident)) ts nr) ident =
        \<lparr>result = idNameInfo ident, err = Some BackendUnavailable,
         resolver = logMiss ident ''TiDB_not_connected''
           (fold (\<lambda>t r. resolver (Resolve None t r ident)) ts nr),
         queries = []\<rparr> \<and>
      cache (fold (\<lambda>t r. resolver (Resolve None t r ident)) ts nr) = cache nr"
    if srt: "sorted (now # ts @ [now'])" for ts now'
  proof -
    let ?nr = "fold (\<lambda>t r. resolver (Resolve None t r ident)) ts nr"
    from srt have s1: "sorted (now # ts)" and le: "last (now # ts) \<le> now'"
      by (simp_all add: sorted_append)
    from unavailable_repeat [OF assms s1]
    have c: "cache ?nr = cache nr" and m: "lookupValid ?nr (last (now # ts)) ident = None"
      by simp_all
    from Resolve_unavailable [OF assms(1) lookupValid_mono [OF m le]] c show ?thesis
      by simp
  qed
  have first: "result (Resolve None now nr ident) =
           \<lparr>Type = [], ID = ident, Name = ident, TenantID = [], TenantName = []\<rparr>"
    "err (Resolve None now nr ident) = Some BackendUnavailable"
    "queries (Resolve None now nr ident) = []"
    "cache (resolver (Resolve None now nr ident)) = cache nr"
    "missLogger (resolver (Resolve None now nr ident)) =
           map_option (\<lambda>ls. ls @ [''ID='' @ ident @ '' reason=TiDB_not_connected''])
             (missLogger nr)"
    by (simp_all add: Resolve_unavailable [OF assms] logMiss_cache missLogger_logMiss
        idNameInfo_def)
  have "result (Resolve None now'
              (fold (\<lambda>t r. resolver (Resolve None t r ident)) ts nr) ident) =
              \<lparr>Type = [], ID = ident, Name = ident, TenantID = [], TenantName = []\<rparr> \<and>
            err (Resolve None now'
              (fold (\<lambda>t r. resolver (Resolve None t r ident)) ts nr) ident) =
              Some BackendUnavailable \<and>
            queries (Resolve None now'
              (fold (\<lambda>t r. resolver (Resolve None t r ident)) ts nr) ident) = [] \<and>
            cache (resolver (Resolve None now'
              (fold (\<lambda>t r. resolver (Resolve None t r ident)) ts nr) ident)) = cache nr \<and>
            missLogger (resolver (Resolve None now'
              (fold (\<lambda>t r. resolver (Resolve None t r ident)) ts nr) ident)) =
              map_option (\<lambda>ls. ls @ [''ID='' @ ident @ '' reason=TiDB_not_connected''])
                (missLogger (fold (\<lambda>t r. resolver (Resolve None t r ident)) ts nr))"
    if srt: "sorted (now # ts @ [now'])" for ts now'
  proof -
    from later [OF srt] have
      r: "Resolve None now' (fold (\<lambda>t r. resolver (Resolve None t r ident)) ts nr) ident =
        \<lparr>result = idNameInfo ident, err = Some BackendUnavailable,
         resolver = logMiss ident ''TiDB_not_connected''
           (fold (\<lambda>t r. resolver (Resolve None t r ident)) ts nr),
         queries = []\<rparr>"
      and c: "cache (fold (\<lambda>t r. resolver (Resolve None t r ident)) ts nr) = cache nr"
      by blast+
    show ?thesis
      unfolding r using c by (simp add: logMiss_cache missLogger_logMiss idNameInfo_def)
  qed
  with first show ?thesis
    by blast
qed

theorem Resolve_backend_unavailable_witness:
  "isNumeric ''12'' \<and> lookupValid GetNameResolver 5 ''12'' = None \<and>
   err (Resolve None 5 GetNameResolver ''12'') = Some BackendUnavailable \<and>
   result (Resolve None 5 GetNameResolver ''12'') =
     \<lparr>Type = [], ID = ''12'', Name = ''12'', TenantID = [], TenantName = []\<rparr> \<and>
   cache (resolver (Resolve None 5 GetNameResolver ''12'')) = [] \<and>
   missLogger (resolver (Resolve None 5 GetNameResolver ''12'')) =
     Some [''ID=12 reason=TiDB_not_connected''] \<and>
   sorted (5 # [6, 8] @ [9 :: int]) \<and>
   err (Resolve None 9
     (fold (\<lambda>t r. resolver (Resolve None t r ''12'')) [6, 8] GetNameResolver) ''12'') =
     Some BackendUnavailable \<and>
   cache (resolver (Resolve None 9
     (fold (\<lambda>t r. resolver (Resolve None t r ''12'')) [6, 8] GetNameResolver) ''12'')) = []"
proof -
  note inst = Resolve_backend_unavailable [OF numeric_12 fresh_12, of 5]
  have s: "sorted (5 # [6, 8] @ [9 :: int])"
    by simp
  have g: "missLogger GetNameResolver = Some []" "cache GetNameResolver = []"
    by (simp_all add: GetNameResolver_def)
  from inst s have l: "err (Resolve None 9
        (fold (\<lambda>t r. resolver (Resolve None t r ''12'')) [6, 8] GetNameResolver) ''12'') =
      Some BackendUnavailable"
    "cache (resolver (Resolve None 9
        (fold (\<lambda>t r. resolver (Resolve None t r ''12'')) [6, 8] GetNameResolver) ''12'')) =
      cache GetNameResolver"
    by blast+
  from inst g have f: "err (Resolve None 5 GetNameResolver ''12'') = Some BackendUnavailable"
    "result (Resolve None 5 GetNameResolver ''12'') =
       \<lparr>Type = [], ID = ''12'', Name = ''12'', TenantID = [], TenantName = []\<rparr>"
    "cache (resolver (Resolve None 5 GetNameResolver ''12'')) = []"
    "missLogger (resolver (Resolve None 5 GetNameResolver ''12'')) =
       Some [''ID=12 reason=TiDB_not_connected'']"
    by simp_all
  from numeric_12 fresh_12 f s l g show ?thesis
    by (simp del: fold_simps)
qed

subsection \<open>Premium cluster names\<close>

lemma meaningful_eq:
  "meaningful ident names acc =
     acc @ filter (\<lambda>n. n \<noteq> [] \<and> n \<noteq> ident) (map TrimSpace names)"
  by (induction names arbitrary: acc) (simp_all add: Let_def)

lemma scanNames_Inr: "scanNames (map Inr names) acc = (acc @ names, None)"
  by (induction names arbitrary: acc) simp_all

lemma scanNames_Inl: "Inl e \<in> set rs \<Longrightarrow> \<exists>e'. scanNames rs acc = ([], Some e')"
proof (induction rs arbitrary: acc)
  case Nil
  then show ?case by simp
next
  case (Cons r rs)
  then show ?case by (cases r) auto
qed

lemma leadingRune_0_iff:
  "leadingRune rs s = 0 \<longleftrightarrow> (\<forall>r \<in> set rs. r \<noteq> [] \<longrightarrow> \<not> prefix r s)"
proof (cases "find (\<lambda>r. r \<noteq> [] \<and> prefix r s) rs")
  case None
  moreover from None have "\<forall>r \<in> set rs. r \<noteq> [] \<longrightarrow> \<not> prefix r s"
    by (auto simp: find_None_iff)
  ultimately show ?thesis
    by (simp add: leadingRune_def)
next
  case (Some r)
  then have "r \<in> set rs" and "r \<noteq> []" and "prefix r s"
    by (auto simp: find_Some_iff)
  with Some show ?thesis
    by (auto simp: leadingRune_def)
qed

lemma leadingRune_split:
  assumes "leadingRune rs s \<noteq> 0"
  shows "\<exists>r \<in> set rs. s = r @ drop (leadingRune rs s) s"
proof -
  from assms obtain r where r: "find (\<lambda>r. r \<noteq> [] \<and> prefix r s) rs = Some r"
    by (auto simp: leadingRune_def split: option.splits)
  then have "r \<in> set rs" and "prefix r s"
    by (auto simp: find_Some_iff)
  moreover from r have "leadingRune rs s = length r"
    by (simp add: leadingRune_def)
  ultimately show ?thesis
    by (auto simp: prefix_def)
qed

lemma TrimLeftRunes_spec:
  "\<exists>ps. set ps \<subseteq> set rs \<and> s = concat ps @ TrimLeftRunes rs s \<and>
        leadingRune rs (TrimLeftRunes rs s) = 0"
proof (induction rs s rule: TrimLeftRunes.induct)
  case (1 rs s)
  show ?case
  proof (cases "leadingRune rs s = 0")
    case True
    then have "TrimLeftRunes rs s = s"
      by (simp add: TrimLeftRunes.simps)
    with True show ?thesis
      by (intro exI [of _ "[]"]) simp
  next
    case False
    then have eq: "TrimLeftRunes rs s = TrimLeftRunes rs (drop (leadingRune rs s) s)"
      by (subst TrimLeftRunes.simps) simp
    from leadingRune_split [OF False] obtain r
      where r: "r \<in> set rs" "s = r @ drop (leadingRune rs s) s"
      by blast
    from "1.IH" [OF False] obtain ps where ps: "set ps \<subseteq> set rs"
      "drop (leadingRune rs s) s = concat ps @ TrimLeftRunes rs (drop (leadingRune rs s) s)"
      "leadingRune rs (TrimLeftRunes rs (drop (leadingRune rs s) s)) = 0"
      by blast
    have "s = concat (r # ps) @ TrimLeftRunes rs s"
      using r(2) ps(2) eq by (metis append.assoc concat.simps(2))
    with r(1) ps(1,3) eq show ?thesis
      by (intro exI [of _ "r # ps"]) simp
  qed
qed

lemma spaceRunes_nonempty: "r \<in> set spaceRunes \<Longrightarrow> r \<noteq> []"
  by (auto simp: spaceRunes_def)

text \<open>
  What \<open>TrimSpace\<close> gives: the string without a run of space runes at its start and a run
  of space runes at its end, and what is left neither starts nor ends with a space rune.
\<close>

lemma TrimSpace_spec:
  "\<exists>ps qs. set ps \<subseteq> set spaceRunes \<and> set qs \<subseteq> set spaceRunes \<and>
     s = concat ps @ TrimSpace s @ concat qs \<and>
     (\<forall>r \<in> set spaceRunes. \<not> prefix r (TrimSpace s) \<and> \<not> suffix r (TrimSpace s))"
proof -
  let ?m = "TrimLeftRunes spaceRunes s"
  let ?t = "TrimLeftRunes (map rev spaceRunes) (rev ?m)"
  from TrimLeftRunes_spec [of spaceRunes s] obtain ps
    where ps: "set ps \<subseteq> set spaceRunes" "s = concat ps @ ?m" "leadingRune spaceRunes ?m = 0"
    by blast
  from TrimLeftRunes_spec [of "map rev spaceRunes" "rev ?m"] obtain qs'
    where qs: "set qs' \<subseteq> set (map rev spaceRunes)" "rev ?m = concat qs' @ ?t"
      "leadingRune (map rev spaceRunes) ?t = 0"
    by blast
  have ts: "TrimSpace s = rev ?t"
    by (simp add: TrimSpace_def)
  let ?qs = "map rev (rev qs')"
  have "set ?qs \<subseteq> set spaceRunes"
    using qs(1) by auto
  moreover have m: "?m = rev ?t @ concat ?qs"
  proof -
    have "?m = rev (concat qs' @ ?t)"
      using qs(2) by (metis rev_rev_ident)
    then show ?thesis
      by (simp add: rev_concat)
  qed
  moreover have "\<not> prefix r (rev ?t)" if "r \<in> set spaceRunes" for r
  proof
    assume "prefix r (rev ?t)"
    then have "prefix r ?m"
      by (subst m) (rule prefix_prefix)
    with ps(3) that spaceRunes_nonempty [OF that] show False
      by (auto simp: leadingRune_0_iff)
  qed
  moreover have "\<not> suffix r (rev ?t)" if "r \<in> set spaceRunes" for r
  proof
    assume "suffix r (rev ?t)"
    then have "prefix (rev r) ?t"
      by (simp add: suffix_to_prefix)
    moreover from that have "rev r \<in> set (map rev spaceRunes)" "rev r \<noteq> []"
      using spaceRunes_nonempty [OF that] by auto
    ultimately show False
      using qs(3) by (auto simp: leadingRune_0_iff)
  qed
  ultimately show ?thesis
    using ps(1,2) unfolding ts
    by (intro exI [of _ ps] exI [of _ ?qs]) (metis append.assoc)+
qed

text \<open>
  \<^verbatim>\<open>strings.Join\<close> in the terms of the list library: the first element, and before each
  of the others the separator.
\<close>

lemma Join_concat: "Join (x # xs) sep = x @ concat (map (\<lambda>y. sep @ y) xs)"
  by (induction xs arbitrary: x) simp_all

lemma length_Join:
  "length (Join xs sep) = sum_list (map length xs) + (length xs - 1) * length sep"
proof (cases xs)
  case Nil
  then show ?thesis by simp
next
  case (Cons x ys)
  have "length (concat (map (\<lambda>y. sep @ y) ys)) = sum_list (map length ys) + length ys * length sep"
    by (induction ys) simp_all
  with Cons show ?thesis
    by (simp add: Join_concat)
qed

lemma premiumName_Rows:
  assumes "premium_names_by_parent_id tidb ident = Rows (map Inr names)"
  shows "premiumName tidb ident stored =
     (case filter (\<lambda>n. n \<noteq> [] \<and> n \<noteq> ident) (map TrimSpace names) of
        [] \<Rightarrow> stored
      | k # ks \<Rightarrow> k @ concat (map (\<lambda>n. '', '' @ n) ks))"
proof -
  let ?kept = "filter (\<lambda>n. n \<noteq> [] \<and> n \<noteq> ident) (map TrimSpace names)"
  from assms have p: "premiumName tidb ident stored =
      (if names \<noteq> [] \<and> ?kept \<noteq> [] then Join ?kept '', '' else stored)"
    by (simp add: premiumName_def getPremiumClusterNamesByParentID_def scanNames_Inr
        meaningful_eq Let_def)
  show ?thesis
  proof (cases ?kept)
    case Nil
    with p show ?thesis by simp
  next
    case (Cons k ks)
    then have "names \<noteq> []" by auto
    with p Cons show ?thesis
      by (simp only: Join_concat list.simps if_True simp_thms)
  qed
qed

lemma premiumName_QueryError:
  "premium_names_by_parent_id tidb ident = QueryError e \<Longrightarrow>
   premiumName tidb ident stored = stored"
  by (simp add: premiumName_def getPremiumClusterNamesByParentID_def)

lemma premiumName_scan_error:
  assumes "premium_names_by_parent_id tidb ident = Rows rs" and "Inl e \<in> set rs"
  shows "premiumName tidb ident stored = stored"
proof -
  from scanNames_Inl [OF assms(2), of "[]"] obtain e' where "scanNames rs [] = ([], Some e')"
    by blast
  with assms(1) show ?thesis
    by (simp add: premiumName_def getPremiumClusterNamesByParentID_def)
qed

text \<open>
  Claim C5. When the cluster row has the deploy type \<^verbatim>\<open>nextgen-host\<close> and a name that is
  empty or is the identifier, \<^verbatim>\<open>Resolve\<close> asks for the premium cluster names of the
  identifier (the database gives them newest first), trims each with
  \<^verbatim>\<open>strings.TrimSpace\<close>, drops those that are then empty or equal to the identifier, and
  returns the rest joined with a comma and a space: the first of them, and then, in the
  order of the rows, each of the others with \<open>'', ''\<close> before it. When none is left, or
  the names cannot be read, the stored name stays. The rows \<open>Beta\<close>, \<open>Alpha\<close> give
  \<open>Beta, Alpha\<close>. Trimming a string \<open>s\<close> takes a run of space runes from its start
  and one from its end and leaves a string that neither starts nor ends with a space rune.
\<close>

theorem Resolve_premium_names:
  assumes "isNumeric ident" and "lookupValid nr now ident = None"
    and "clusters_by_id tidb ident = Scanned ci"
    and "DeployType ci = ''nextgen-host''"
    and "ClusterName ci = [] \<or> ClusterName ci = ident"
  shows "queries (Resolve (Some tidb) now nr ident) =
           [ClusterById ident, PremiumNamesByParentId ident] \<and>
         err (Resolve (Some tidb) now nr ident) = None \<and>
         (\<forall>names. premium_names_by_parent_id tidb ident = Rows (map Inr names) \<longrightarrow>
            Name (result (Resolve (Some tidb) now nr ident)) =
              (case filter (\<lambda>n. n \<noteq> [] \<and> n \<noteq> ident) (map TrimSpace names) of
                 [] \<Rightarrow> ClusterName ci
               | k # ks \<Rightarrow> k @ concat (map (\<lambda>n. '', '' @ n) ks))) \<and>
         (\<forall>e. premium_names_by_parent_id tidb ident = QueryError e \<longrightarrow>
            Name (result (Resolve (Some tidb) now nr ident)) = ClusterName ci) \<and>
         (\<forall>rs e. premium_names_by_parent_id tidb ident = Rows rs \<and> Inl e \<in> set rs \<longrightarrow>
            Name (result (Resolve (Some tidb) now nr ident)) = ClusterName ci) \<and>
         (\<exists>ps qs. set ps \<subseteq> set spaceRunes \<and> set qs \<subseteq> set spaceRunes \<and>
            s = concat ps @ TrimSpace s @ concat qs \<and>
            (\<forall>r \<in> set spaceRunes. \<not> prefix r (TrimSpace s) \<and> \<not> suffix r (TrimSpace s)))"
proof -
  from tryCluster_Scanned [OF assms(3), of now nr] assms(4,5)
  have "observed (Resolve (Some tidb) now nr ident) =
     (\<lparr>Type = ''cluster'', ID = ident, Name = premiumName tidb ident (ClusterName ci),
       TenantID = ClusterInfo.TenantID ci, TenantName = ClusterInfo.TenantName ci\<rparr>,
      None, [ClusterById ident, PremiumNamesByParentId ident])"
    by (auto simp: Resolve_chain [OF assms(1,2)])
  then have r: "Name (result (Resolve (Some tidb) now nr ident)) =
      premiumName tidb ident (ClusterName ci)"
    and e: "err (Resolve (Some tidb) now nr ident) = None"
    and q: "queries (Resolve (Some tidb) now nr ident) =
           [ClusterById ident, PremiumNamesByParentId ident]"
    by (simp_all add: observed_def)
  have "queries (Resolve (Some tidb) now nr ident) =
           [ClusterById ident, PremiumNamesByParentId ident] \<and>
         err (Resolve (Some tidb) now nr ident) = None \<and>
         (\<forall>names. premium_names_by_parent_id tidb ident = Rows (map Inr names) \<longrightarrow>
            Name (result (Resolve (Some tidb) now nr ident)) =
              (case filter (\<lambda>n. n \<noteq> [] \<and> n \<noteq> ident) (map TrimSpace names) of
                 [] \<Rightarrow> ClusterName ci
               | k # ks \<Rightarrow> k @ concat (map (\<lambda>n. '', '' @ n) ks))) \<and>
         (\<forall>e. premium_names_by_parent_id tidb ident = QueryError e \<longrightarrow>
            Name (result (Resolve (Some tidb) now nr ident)) = ClusterName ci) \<and>
         (\<forall>rs e. premium_names_by_parent_id tidb ident = Rows rs \<and> Inl e \<in> set rs \<longrightarrow>
            Name (result (Resolve (Some tidb) now nr ident)) = ClusterName ci)"
    unfolding r using e q
    by (auto simp: premiumName_Rows premiumName_QueryError premiumName_scan_error)
  with TrimSpace_spec [of s] show ?thesis
    by blast
qed

lemma trim_samples:
  "TrimSpace ''Beta'' = ''Beta''"
  "TrimSpace ''Alpha'' = ''Alpha''"
  "TrimSpace '' Beta'' = ''Beta''"
  "TrimSpace ''12  '' = ''12''"
  "TrimSpace ''   '' = []"
  "TrimSpace [CHR ''A'', CHR ''l'', CHR ''p'', CHR ''h'', CHR ''a'', CHR 0x0A] = ''Alpha''"
  "TrimSpace '' 12 '' = ''12''"
  "TrimSpace ''Gamma'' = ''Gamma''"
  by code_simp+

theorem Resolve_premium_names_witness:
  "isNumeric ''12'' \<and> lookupValid GetNameResolver 5 ''12'' = None \<and>
   clusters_by_id (premiumDB [''Beta'', ''Alpha'']) ''12'' =
     Scanned (noCluster\<lparr>ClusterID := ''12'', DeployType := ''nextgen-host''\<rparr>) \<and>
   premium_names_by_parent_id (premiumDB [''Beta'', ''Alpha'']) ''12'' =
     Rows (map Inr [''Beta'', ''Alpha'']) \<and>
   Name (result (Resolve (Some (premiumDB [''Beta'', ''Alpha''])) 5 GetNameResolver ''12'')) =
     ''Beta, Alpha'' \<and>
   Name (result (Resolve (Some (premiumDB [''Alpha'', ''Beta''])) 5 GetNameResolver ''12'')) =
     ''Alpha, Beta'' \<and>
   Name (result (Resolve (Some (premiumDB [''Gamma''])) 5 GetNameResolver ''12'')) =
     ''Gamma'' \<and>
   Name (result (Resolve (Some (premiumDB [''Gamma'', ''Beta'', ''Alpha''])) 5
       GetNameResolver ''12'')) = ''Gamma, Beta, Alpha'' \<and>
   Name (result (Resolve (Some (premiumDB
       ['' Beta'', ''12  '', ''   '', [CHR ''A'', CHR ''l'', CHR ''p'', CHR ''h'', CHR ''a'', CHR 0x0A]]))
       5 GetNameResolver ''12'')) = ''Beta, Alpha'' \<and>
   Name (result (Resolve (Some (premiumDB ['' 12 ''])) 5 GetNameResolver ''12'')) = []"
proof -
  let ?ci = "noCluster\<lparr>ClusterID := ''12'', DeployType := ''nextgen-host''\<rparr>"
  have c: "clusters_by_id (premiumDB names) ''12'' = Scanned ?ci" for names
    by (simp add: premiumDB_def emptyDB_def)
  have p: "premium_names_by_parent_id (premiumDB names) ''12'' = Rows (map Inr names)" for names
    by (simp add: premiumDB_def emptyDB_def)
  have d: "DeployType ?ci = ''nextgen-host''"
    by simp
  have n: "ClusterName ?ci = [] \<or> ClusterName ?ci = ''12''"
    by (simp add: noCluster_def)
  have "Name (result (Resolve (Some (premiumDB names)) 5 GetNameResolver ''12'')) =
      (case filter (\<lambda>n. n \<noteq> [] \<and> n \<noteq> ''12'') (map TrimSpace names) of
         [] \<Rightarrow> ClusterName ?ci
       | k # ks \<Rightarrow> k @ concat (map (\<lambda>n. '', '' @ n) ks))" for names
    using Resolve_premium_names [OF numeric_12 fresh_12 c d n, of names 5] p [of names]
    by blast
  then have "Name (result (Resolve (Some (premiumDB [''Beta'', ''Alpha''])) 5 GetNameResolver ''12'')) =
     ''Beta, Alpha''"
    "Name (result (Resolve (Some (premiumDB [''Alpha'', ''Beta''])) 5 GetNameResolver ''12'')) =
     ''Alpha, Beta''"
    "Name (result (Resolve (Some (premiumDB [''Gamma''])) 5 GetNameResolver ''12'')) =
     ''Gamma''"
    "Name (result (Resolve (Some (premiumDB [''Gamma'', ''Beta'', ''Alpha''])) 5
       GetNameResolver ''12'')) = ''Gamma, Beta, Alpha''"
    "Name (result (Resolve (Some (premiumDB
       ['' Beta'', ''12  '', ''   '', [CHR ''A'', CHR ''l'', CHR ''p'', CHR ''h'', CHR ''a'', CHR 0x0A]]))
       5 GetNameResolver ''12'')) = ''Beta, Alpha''"
    "Name (result (Resolve (Some (premiumDB ['' 12 ''])) 5 GetNameResolver ''12'')) = []"
    by (simp_all add: trim_samples noCluster_def)
  with numeric_12 fresh_12 c p show ?thesis
    by simp
qed

subsection \<open>The TTLs of the reachable resolvers\<close>

lemma store_TTL:
  "cacheTTL (store ident e nr) = cacheTTL nr" "notFoundTTL (store ident e nr) = notFoundTTL nr"
  by (simp_all add: store_def)

lemma Resolve_TTL:
  "cacheTTL (resolver (Resolve db now nr ident)) = cacheTTL nr \<and>
   notFoundTTL (resolver (Resolve db now nr ident)) = notFoundTTL nr"
  using Resolve_resolver_cases [of db now nr ident]
  by (elim disjE exE conjE) (simp_all add: logMiss_TTL store_TTL)

lemma CleanExpiredCache_TTL:
  "cacheTTL (snd (CleanExpiredCache nr now)) = cacheTTL nr \<and>
   notFoundTTL (snd (CleanExpiredCache nr now)) = notFoundTTL nr"
  by (simp add: CleanExpiredCache_def split: prod.splits)

text \<open>
  The two TTLs of a reachable resolver are the ones \<^verbatim>\<open>GetNameResolver\<close> sets, so the
  bounds that the validity of an entry asks of them hold.
\<close>

lemma reachable_TTL:
  "reachable nr \<Longrightarrow> cacheTTL nr = 24 * Hour \<and> notFoundTTL nr = 1 * Hour"
proof (induction rule: reachable.induct)
  case initial
  show ?case by (simp add: GetNameResolver_def)
next
  case (resolve nr db now ident)
  then show ?case by (simp add: Resolve_TTL)
next
  case (clear nr)
  then show ?case by (simp add: ClearCache_def)
next
  case (cleanExpired nr now)
  then show ?case by (simp add: CleanExpiredCache_TTL)
qed

lemma reachable_TTL_bounds:
  assumes "reachable nr"
  shows "- (2 ^ 63) < cacheTTL nr" "cacheTTL nr < 2 ^ 63"
    "- (2 ^ 63) < notFoundTTL nr" "notFoundTTL nr < 2 ^ 63"
  using reachable_TTL [OF assms] by (simp_all add: Hour_def)

end
